theory Spec2Isabelle
  imports Complex_Main "HOL-Library.Sublist" "HOL-Library.List_Lexorder" "HOL-Library.Char_ord"
    "HOL-Library.Multiset"
begin

section \<open>JavaScript strings and arrays\<close>

text \<open>
  Strings are lists of 8-bit characters; the model covers ASCII text. The functions below
  are the string and array methods that \<^verbatim>\<open>search-agent.js\<close> and the search API
  server call.
\<close>

definition lower_char :: "char \<Rightarrow> char" where
  "lower_char c =
     (case map_of (zip ''ABCDEFGHIJKLMNOPQRSTUVWXYZ'' ''abcdefghijklmnopqrstuvwxyz'') c of
        Some d \<Rightarrow> d
      | None \<Rightarrow> c)"

text \<open>\<^verbatim>\<open>s.toLowerCase()\<close>\<close>

definition toLowerCase :: "string \<Rightarrow> string" where
  "toLowerCase s = map lower_char s"

text \<open>\<^verbatim>\<open>s.includes(w)\<close>: \<open>w\<close> occurs in \<open>s\<close> as a contiguous substring.\<close>

definition str_includes :: "string \<Rightarrow> string \<Rightarrow> bool" where
  "str_includes s w = sublist w s"

text \<open>
  The characters matched by \<^verbatim>\<open>\s\<close>: space, tab, line feed, vertical tab, form feed
  and carriage return.
\<close>

definition is_space :: "char \<Rightarrow> bool" where
  "is_space c = (let n = (of_char c :: nat) in n = 32 \<or> (9 \<le> n \<and> n \<le> 13))"

text \<open>
  \<^verbatim>\<open>s.split(/\s+/)\<close>: the pieces between maximal runs of whitespace. A leading or a
  trailing run leaves an empty piece at that end, and the empty string splits into one
  empty piece. The flag says that the previous character was whitespace, the accumulator
  holds the current piece reversed.
\<close>

fun split_ws_aux :: "bool \<Rightarrow> string \<Rightarrow> string \<Rightarrow> string list" where
  "split_ws_aux inws cur [] = [rev cur]"
| "split_ws_aux inws cur (c # cs) =
     (if is_space c
      then (if inws then split_ws_aux True [] cs else rev cur # split_ws_aux True [] cs)
      else split_ws_aux False (c # cur) cs)"

definition split_ws :: "string \<Rightarrow> string list" where
  "split_ws s = split_ws_aux False [] s"

text \<open>\<^verbatim>\<open>xs.join(' ')\<close>\<close>

fun join_sp :: "string list \<Rightarrow> string" where
  "join_sp [] = []"
| "join_sp [x] = x"
| "join_sp (x # y # ys) = x @ '' '' @ join_sp (y # ys)"

text \<open>
  \<^verbatim>\<open>xs.slice(0, e)\<close> for an integer \<open>e\<close>: a negative end counts from the end of the
  array.
\<close>

definition slice0 :: "'a list \<Rightarrow> int \<Rightarrow> 'a list" where
  "slice0 xs e = (if e < 0 then take (nat (int (length xs) + e)) xs else take (nat e) xs)"

text \<open>
  \<^verbatim>\<open>xs.sort(cmp)\<close> is stable. It is modelled as a stable insertion sort that reads only
  the sign of the comparator: \<open>after a b\<close> says that \<^verbatim>\<open>cmp(a, b) > 0\<close>, that is, \<open>a\<close>
  is to be placed after \<open>b\<close>. For a comparator that orders its arguments consistently every
  stable sort returns this list.
\<close>

fun insert_by :: "('a \<Rightarrow> 'a \<Rightarrow> bool) \<Rightarrow> 'a \<Rightarrow> 'a list \<Rightarrow> 'a list" where
  "insert_by after x [] = [x]"
| "insert_by after x (y # ys) = (if after x y then y # insert_by after x ys else x # y # ys)"

definition js_sort :: "('a \<Rightarrow> 'a \<Rightarrow> bool) \<Rightarrow> 'a list \<Rightarrow> 'a list" where
  "js_sort after xs = foldr (insert_by after) xs []"

text \<open>\<^verbatim>\<open>[...new Set(xs)]\<close>: the distinct elements in the order of their first occurrence.\<close>

definition uniq :: "'a list \<Rightarrow> 'a list" where
  "uniq xs = rev (remdups (rev xs))"

section \<open>Entries and snapshots\<close>

text \<open>
  An optional string property of a JSON object: the property is missing
  (\<^verbatim>\<open>undefined\<close>), \<^verbatim>\<open>null\<close>, or a string.
\<close>

datatype field = Absent | Null | Str string

text \<open>\<^verbatim>\<open>`${x}`\<close>\<close>

fun template :: "field \<Rightarrow> string" where
  "template Absent = ''undefined''"
| "template Null = ''null''"
| "template (Str s) = s"

text \<open>\<^verbatim>\<open>x || ''\<close>\<close>

fun or_empty :: "field \<Rightarrow> string" where
  "or_empty (Str s) = s"
| "or_empty _ = []"

text \<open>\<^verbatim>\<open>x?.toLowerCase().includes(q)\<close> used as a condition: false when \<open>x\<close> is missing.\<close>

fun opt_includes :: "field \<Rightarrow> string \<Rightarrow> bool" where
  "opt_includes (Str s) q = str_includes (toLowerCase s) q"
| "opt_includes _ q = False"

text \<open>Truthiness of an optional string: present and not empty.\<close>

fun truthy :: "field \<Rightarrow> bool" where
  "truthy (Str s) = (s \<noteq> [])"
| "truthy _ = False"

record entry =
  ident :: int
  title :: string
  summary :: field
  category :: string
  source :: field
  tags :: "string list option"
  date :: field
  url :: string

record snapshot =
  entries :: "entry list"
  categories :: "string list"
  lastUpdated :: string

record 'n scored =
  entry :: entry
  score :: 'n

record lscored = "int scored" +
  matches :: "string list"

section \<open>The lexical scorer of \<^verbatim>\<open>search-agent.js\<close>\<close>

text \<open>
  The clock: the current time in milliseconds, and \<^verbatim>\<open>new Date(s).getTime()\<close>, which is
  \<open>None\<close> for a string that is not a date (the time value is then NaN).
\<close>

record clock =
  now :: int
  parseDate :: "string \<Rightarrow> int option"

definition queryWordsOf :: "string \<Rightarrow> string list" where
  "queryWordsOf queryLower = filter (\<lambda>w. length w > 2) (split_ws queryLower)"

definition entryText :: "entry \<Rightarrow> string" where
  "entryText e = toLowerCase (title e @ '' '' @ or_empty (summary e) @ '' '' @ category e
       @ '' '' @ template (source e) @ '' '' @ join_sp (case tags e of None \<Rightarrow> [] | Some ts \<Rightarrow> ts))"

text \<open>
  The loop over the query words: state is the pair of \<^verbatim>\<open>score\<close> and \<^verbatim>\<open>matches\<close>.
\<close>

fun wordLoop :: "string \<Rightarrow> string list \<Rightarrow> int \<times> string list \<Rightarrow> int \<times> string list" where
  "wordLoop text [] st = st"
| "wordLoop text (w # ws) (sc, ms) =
     wordLoop text ws (if str_includes text w then (sc + 1, ms @ [w]) else (sc, ms))"

text \<open>
  The date boost. \<^verbatim>\<open>daysOld\<close> is the difference in milliseconds divided by the
  milliseconds of a day, so \<^verbatim>\<open>daysOld < 30\<close> compares the difference with thirty days of
  milliseconds; every comparison with NaN is false.
\<close>

definition msPerDay :: int where
  "msPerDay = 1000 * 60 * 60 * 24"

definition dateBoost :: "clock \<Rightarrow> entry \<Rightarrow> int" where
  "dateBoost clk e =
     (case date e of
        Str d \<Rightarrow>
          (if d = [] then 0
           else (case parseDate clk d of
                   None \<Rightarrow> 0
                 | Some t \<Rightarrow>
                     (if now clk - t < 30 * msPerDay then 2
                      else if now clk - t < 90 * msPerDay then 1 else 0)))
      | _ \<Rightarrow> 0)"

definition scoreEntry :: "clock \<Rightarrow> string \<Rightarrow> string list \<Rightarrow> entry \<Rightarrow> lscored" where
  "scoreEntry clk queryLower queryWords e =
     (let text = entryText e;
          (score1, ms) = wordLoop text queryWords (0, []);
          titleLower = toLowerCase (title e);
          score2 = (if str_includes titleLower queryLower then score1 + 10
                    else if list_all (\<lambda>w. str_includes titleLower w) queryWords then score1 + 5
                    else score1);
          score3 = (if opt_includes (summary e) queryLower then score2 + 3 else score2);
          score4 = (if opt_includes (source e) queryLower then score3 + 2 else score3);
          score5 = score4 + dateBoost clk e
      in \<lparr>entry = e, score = score5, matches = uniq ms\<rparr>)"

text \<open>
  The options object. A property that is not set is \<open>Absent\<close> or \<open>None\<close>;
  \<^verbatim>\<open>localSearch\<close> reads \<^verbatim>\<open>const { category, limit = 10 } = options\<close>.
\<close>

record options =
  categoryOpt :: field
  dateFrom :: field
  dateTo :: field
  limit :: "int option"
  includeSummary :: "bool option"

definition limitOf :: "options \<Rightarrow> int" where
  "limitOf opts = (case limit opts of None \<Rightarrow> 10 | Some n \<Rightarrow> n)"

text \<open>\<^verbatim>\<open>category && category !== 'all'\<close>\<close>

definition categoryActive :: "options \<Rightarrow> bool" where
  "categoryActive opts = (truthy (categoryOpt opts) \<and> categoryOpt opts \<noteq> Str ''all'')"

text \<open>The body of \<^verbatim>\<open>localSearch\<close> after \<^verbatim>\<open>loadKB()\<close> has returned the snapshot.\<close>

definition localRank :: "clock \<Rightarrow> snapshot \<Rightarrow> string \<Rightarrow> options \<Rightarrow> lscored list" where
  "localRank clk data query opts =
     (let queryLower = toLowerCase query;
          queryWords = queryWordsOf queryLower;
          results = map (scoreEntry clk queryLower queryWords) (entries data);
          results = (if categoryActive opts
                     then filter (\<lambda>r. toLowerCase (category (entry r))
                                       = toLowerCase (or_empty (categoryOpt opts))) results
                     else results);
          results = js_sort (\<lambda>a b. score b - score a > 0) results
      in slice0 (filter (\<lambda>r. score r > 0) results) (limitOf opts))"

section \<open>JavaScript numbers\<close>

text \<open>
  A number is a real, NaN or an infinity: arithmetic is exact, rounding to double precision
  and the sign of zero are not modelled. The operations are those the search code applies
  to scores.
\<close>

datatype jsnum = Num real | NaN | PosInf | NegInf

fun jneg :: "jsnum \<Rightarrow> jsnum" where
  "jneg (Num x) = Num (- x)"
| "jneg NaN = NaN"
| "jneg PosInf = NegInf"
| "jneg NegInf = PosInf"

fun jadd :: "jsnum \<Rightarrow> jsnum \<Rightarrow> jsnum" where
  "jadd (Num x) (Num y) = Num (x + y)"
| "jadd NaN _ = NaN"
| "jadd _ NaN = NaN"
| "jadd PosInf NegInf = NaN"
| "jadd NegInf PosInf = NaN"
| "jadd PosInf _ = PosInf"
| "jadd NegInf _ = NegInf"
| "jadd _ PosInf = PosInf"
| "jadd _ NegInf = NegInf"

definition jsub :: "jsnum \<Rightarrow> jsnum \<Rightarrow> jsnum" where
  "jsub a b = jadd a (jneg b)"

text \<open>The sign of a number that is not NaN: \<open>-1\<close>, \<open>0\<close> or \<open>1\<close>.\<close>

fun jsign :: "jsnum \<Rightarrow> int" where
  "jsign (Num x) = (if x < 0 then - 1 else if x = 0 then 0 else 1)"
| "jsign PosInf = 1"
| "jsign NegInf = - 1"
| "jsign NaN = 0"

fun jmul :: "jsnum \<Rightarrow> jsnum \<Rightarrow> jsnum" where
  "jmul (Num x) (Num y) = Num (x * y)"
| "jmul NaN _ = NaN"
| "jmul _ NaN = NaN"
| "jmul a b =
     (if jsign a * jsign b = 0 then NaN else if jsign a * jsign b > 0 then PosInf else NegInf)"

fun jdiv :: "jsnum \<Rightarrow> jsnum \<Rightarrow> jsnum" where
  "jdiv NaN _ = NaN"
| "jdiv _ NaN = NaN"
| "jdiv (Num x) (Num y) =
     (if y \<noteq> 0 then Num (x / y) else if x = 0 then NaN else if x > 0 then PosInf else NegInf)"
| "jdiv (Num x) _ = Num 0"
| "jdiv a (Num y) = (if jsign a * (if y < 0 then - 1 else 1) > 0 then PosInf else NegInf)"
| "jdiv _ _ = NaN"

fun jsqrt :: "jsnum \<Rightarrow> jsnum" where
  "jsqrt (Num x) = (if x < 0 then NaN else Num (sqrt x))"
| "jsqrt PosInf = PosInf"
| "jsqrt _ = NaN"

text \<open>\<^verbatim>\<open>Math.round\<close>: the nearest integer, a tie goes up.\<close>

fun jround :: "jsnum \<Rightarrow> jsnum" where
  "jround (Num x) = Num (of_int \<lfloor>x + 1 / 2\<rfloor>)"
| "jround a = a"

text \<open>\<^verbatim>\<open>a > 0\<close>\<close>

fun jpositive :: "jsnum \<Rightarrow> bool" where
  "jpositive (Num x) = (x > 0)"
| "jpositive PosInf = True"
| "jpositive _ = False"

section \<open>The entry store of \<^verbatim>\<open>search-agent.js\<close>\<close>

datatype error = LoadError | TypeError | ProviderError

text \<open>
  The knowledge-base file is represented by its modification time and by what
  \<^verbatim>\<open>JSON.parse\<close> makes of its text: an exception, a falsy value (\<^verbatim>\<open>null\<close>,
  \<^verbatim>\<open>false\<close>, \<^verbatim>\<open>0\<close>, \<^verbatim>\<open>""\<close>), or a document. A missing file is \<open>None\<close>.
\<close>

datatype content = Malformed | Falsy | Doc snapshot

record kbfile =
  mtime :: int
  content :: content

text \<open>
  A loaded value: the falsy value, or an object. Every object that \<^verbatim>\<open>JSON.parse\<close> creates
  is a new one; its identity is the number of objects parsed before it.
\<close>

datatype kbval = FalsyVal | Obj nat snapshot

text \<open>
  The module variables \<^verbatim>\<open>kbCache\<close> and \<^verbatim>\<open>kbLastModified\<close> (\<open>None\<close> is their initial
  \<^verbatim>\<open>null\<close>), and the count of the objects parsed so far.
\<close>

record kb_state =
  kbCache :: "kbval option"
  kbLastModified :: "int option"
  parsed :: nat

definition parseInto :: "kb_state \<Rightarrow> kbfile \<Rightarrow> (error + kbval) \<times> kb_state" where
  "parseInto st f =
     (case content f of
        Malformed \<Rightarrow> (Inl LoadError, st)
      | Falsy \<Rightarrow> (Inr FalsyVal, st\<lparr>kbCache := Some FalsyVal, kbLastModified := Some (mtime f)\<rparr>)
      | Doc d \<Rightarrow>
          (Inr (Obj (parsed st) d),
           st\<lparr>kbCache := Some (Obj (parsed st) d), kbLastModified := Some (mtime f),
              parsed := parsed st + 1\<rparr>))"

definition loadKB :: "kb_state \<Rightarrow> kbfile option \<Rightarrow> (error + kbval) \<times> kb_state" where
  "loadKB st fs =
     (case fs of
        None \<Rightarrow> (Inl LoadError, st)
      | Some f \<Rightarrow>
          (case kbCache st of
             Some (Obj r d) \<Rightarrow>
               (if Some (mtime f) \<noteq> kbLastModified st then parseInto st f
                else (Inr (Obj r d), st))
           | _ \<Rightarrow> parseInto st f))"

text \<open>
  \<^verbatim>\<open>localSearch\<close>: \<^verbatim>\<open>data.entries\<close> raises a TypeError when the loaded value is not a
  document.
\<close>

definition localSearch ::
  "clock \<Rightarrow> kbfile option \<Rightarrow> kb_state \<Rightarrow> string \<Rightarrow> options \<Rightarrow> (error + lscored list) \<times> kb_state"
where
  "localSearch clk fs st query opts =
     (case loadKB st fs of
        (Inl e, st') \<Rightarrow> (Inl e, st')
      | (Inr FalsyVal, st') \<Rightarrow> (Inl TypeError, st')
      | (Inr (Obj r data), st') \<Rightarrow> (Inr (localRank clk data query opts), st'))"

section \<open>The search API server\<close>

subsection \<open>Entry store and embedding cache\<close>

text \<open>
  The module variables \<^verbatim>\<open>kbData\<close> and \<^verbatim>\<open>embeddingsCache\<close>, and the count of the
  objects parsed so far. An embedding cache is a JSON object from entry ids to vectors,
  kept as the list of its properties.
\<close>

type_synonym embeddings = "(int \<times> real list) list"

record srv_state =
  kbData :: "kbval option"
  embeddingsCache :: "embeddings option"
  srv_parsed :: nat

text \<open>The file \<^verbatim>\<open>.embeddings-cache.json\<close>: missing, not parseable, or a cache.\<close>

datatype cachefile = NoCacheFile | BadCacheFile | CacheFile embeddings

text \<open>
  What the embedding provider answers to the request for the query's embedding: the
  request or the decoding of its body fails; the body has an \<^verbatim>\<open>error\<close> property; the body
  has no \<^verbatim>\<open>data[0]\<close>; or \<^verbatim>\<open>data[0].embedding\<close> is read, which is \<open>None\<close> when that
  property is missing.
\<close>

datatype embed_reply = FetchFailed | ErrorField | NoData | Embedding "real list option"

text \<open>
  The environment of the server: the two files, the key, and what the providers return.
  \<open>generated\<close> is the cache that \<^verbatim>\<open>generateEmbeddings()\<close> builds from the provider's
  answers, \<open>narration\<close> is the result of \<^verbatim>\<open>generateSummary\<close>.
\<close>

record srv_env =
  kbFile :: "kbfile option"
  cacheFile :: cachefile
  OPENAI_API_KEY :: field
  generated :: embeddings
  queryReply :: embed_reply
  narration :: "string option"

definition loadKBData :: "srv_state \<Rightarrow> kbfile option \<Rightarrow> (error + kbval) \<times> srv_state" where
  "loadKBData st fs =
     (case kbData st of
        Some (Obj r d) \<Rightarrow> (Inr (Obj r d), st)
      | _ \<Rightarrow>
          (case fs of
             None \<Rightarrow> (Inl LoadError, st)
           | Some f \<Rightarrow>
               (case content f of
                  Malformed \<Rightarrow> (Inl LoadError, st)
                | Falsy \<Rightarrow> (Inr FalsyVal, st\<lparr>kbData := Some FalsyVal\<rparr>)
                | Doc d \<Rightarrow>
                    (Inr (Obj (srv_parsed st) d),
                     st\<lparr>kbData := Some (Obj (srv_parsed st) d),
                        srv_parsed := srv_parsed st + 1\<rparr>))))"

definition getEmbeddingsCache :: "srv_env \<Rightarrow> srv_state \<Rightarrow> embeddings \<times> srv_state" where
  "getEmbeddingsCache env st =
     (case embeddingsCache st of
        Some c \<Rightarrow> (c, st)
      | None \<Rightarrow>
          (case cacheFile env of
             CacheFile c \<Rightarrow> (c, st\<lparr>embeddingsCache := Some c\<rparr>)
           | _ \<Rightarrow>
               (if \<not> truthy (OPENAI_API_KEY env) then ([], st)
                else (generated env, st\<lparr>embeddingsCache := Some (generated env)\<rparr>))))"

subsection \<open>The vector scorer\<close>

text \<open>\<^verbatim>\<open>xs[i]\<close> as a number: reading past the end gives \<^verbatim>\<open>undefined\<close>, which is NaN in arithmetic.\<close>

definition elemAt :: "real list \<Rightarrow> nat \<Rightarrow> jsnum" where
  "elemAt xs i = (if i < length xs then Num (xs ! i) else NaN)"

definition cosStep :: "real list \<Rightarrow> real list \<Rightarrow> jsnum \<times> jsnum \<times> jsnum \<Rightarrow> nat \<Rightarrow> jsnum \<times> jsnum \<times> jsnum" where
  "cosStep a b acc i =
     (case acc of (dotProduct, normA, normB) \<Rightarrow>
        (jadd dotProduct (jmul (elemAt a i) (elemAt b i)),
         jadd normA (jmul (elemAt a i) (elemAt a i)),
         jadd normB (jmul (elemAt b i) (elemAt b i))))"

text \<open>
  \<^verbatim>\<open>cosineSimilarity(a, b)\<close>. The first argument is the query embedding, \<open>None\<close> when it
  is \<^verbatim>\<open>null\<close> or \<^verbatim>\<open>undefined\<close>: reading \<^verbatim>\<open>a.length\<close> then raises a TypeError.
\<close>

definition cosineSimilarity :: "real list option \<Rightarrow> real list \<Rightarrow> error + jsnum" where
  "cosineSimilarity a b =
     (case a of
        None \<Rightarrow> Inl TypeError
      | Some a \<Rightarrow>
          (case foldl (cosStep a b) (Num 0, Num 0, Num 0) [0..<length a] of
             (dotProduct, normA, normB) \<Rightarrow>
               Inr (jdiv dotProduct (jmul (jsqrt normA) (jsqrt normB)))))"

definition getQueryEmbedding :: "srv_env \<Rightarrow> error + real list option" where
  "getQueryEmbedding env =
     (if \<not> truthy (OPENAI_API_KEY env) then Inr None
      else (case queryReply env of
              FetchFailed \<Rightarrow> Inl ProviderError
            | ErrorField \<Rightarrow> Inl ProviderError
            | NoData \<Rightarrow> Inl TypeError
            | Embedding e \<Rightarrow> Inr e))"

subsection \<open>Ranking\<close>

text \<open>\<^verbatim>\<open>xs.map(f)\<close> where \<open>f\<close> may raise: the first exception ends the loop.\<close>

fun map_raising :: "('a \<Rightarrow> error + 'b) \<Rightarrow> 'a list \<Rightarrow> error + 'b list" where
  "map_raising f [] = Inr []"
| "map_raising f (x # xs) =
     (case f x of
        Inl e \<Rightarrow> Inl e
      | Inr y \<Rightarrow> (case map_raising f xs of Inl e \<Rightarrow> Inl e | Inr ys \<Rightarrow> Inr (y # ys)))"

text \<open>\<^verbatim>\<open>(a, b) => b.score - a.score\<close> is positive.\<close>

definition byScore :: "jsnum scored \<Rightarrow> jsnum scored \<Rightarrow> bool" where
  "byScore a b = jpositive (jsub (score b) (score a))"

text \<open>The three filters of the server, in the order of the source.\<close>

definition applyFilters :: "options \<Rightarrow> jsnum scored list \<Rightarrow> jsnum scored list" where
  "applyFilters opts results =
     (let results = (if categoryActive opts
                     then filter (\<lambda>r. category (entry r) = or_empty (categoryOpt opts)) results
                     else results);
          results = (if truthy (dateFrom opts)
                     then filter (\<lambda>r. \<not> truthy (date (entry r))
                                       \<or> or_empty (date (entry r)) \<ge> or_empty (dateFrom opts)) results
                     else results);
          results = (if truthy (dateTo opts)
                     then filter (\<lambda>r. \<not> truthy (date (entry r))
                                       \<or> or_empty (date (entry r)) \<le> or_empty (dateTo opts)) results
                     else results)
      in results)"

definition textScore :: "string \<Rightarrow> string list \<Rightarrow> entry \<Rightarrow> jsnum scored" where
  "textScore queryLower queryWords e =
     (let text = entryText e;
          score1 = foldl (\<lambda>sc w. if str_includes text w then sc + 1 else sc) (0 :: int) queryWords;
          score2 = (if str_includes (toLowerCase (title e)) queryLower then score1 + 5 else score1);
          score3 = (if opt_includes (summary e) queryLower then score2 + 3 else score2)
      in \<lparr>entry = e, score = Num (of_int score3 / of_nat (length queryWords + 5))\<rparr>)"

text \<open>The body of \<^verbatim>\<open>textSearch\<close> after \<^verbatim>\<open>loadKBData()\<close> has returned the snapshot.\<close>

definition textRank :: "snapshot \<Rightarrow> string \<Rightarrow> options \<Rightarrow> jsnum scored list" where
  "textRank data query opts =
     (let queryLower = toLowerCase query;
          queryWords = queryWordsOf queryLower;
          results = map (textScore queryLower queryWords) (entries data);
          results = js_sort byScore results;
          results = applyFilters opts results
      in slice0 (filter (\<lambda>r. jpositive (score r)) results) (limitOf opts))"

definition textSearch ::
  "srv_env \<Rightarrow> srv_state \<Rightarrow> string \<Rightarrow> options \<Rightarrow> (error + jsnum scored list) \<times> srv_state"
where
  "textSearch env st query opts =
     (case loadKBData st (kbFile env) of
        (Inl e, st') \<Rightarrow> (Inl e, st')
      | (Inr FalsyVal, st') \<Rightarrow> (Inl TypeError, st')
      | (Inr (Obj r data), st') \<Rightarrow> (Inr (textRank data query opts), st'))"

text \<open>The vector path of \<^verbatim>\<open>semanticSearch\<close>, from the query embedding on.\<close>

definition vectorScore :: "embeddings \<Rightarrow> real list option \<Rightarrow> entry \<Rightarrow> error + jsnum scored" where
  "vectorScore cache queryEmbedding e =
     (case map_of cache (ident e) of
        None \<Rightarrow> Inr \<lparr>entry = e, score = Num 0\<rparr>
      | Some embedding \<Rightarrow>
          (case cosineSimilarity queryEmbedding embedding of
             Inl err \<Rightarrow> Inl err
           | Inr similarity \<Rightarrow> Inr \<lparr>entry = e, score = similarity\<rparr>))"

definition vectorRank ::
  "embeddings \<Rightarrow> real list option \<Rightarrow> snapshot \<Rightarrow> options \<Rightarrow> error + jsnum scored list"
where
  "vectorRank cache queryEmbedding data opts =
     (case map_raising (vectorScore cache queryEmbedding) (entries data) of
        Inl err \<Rightarrow> Inl err
      | Inr results \<Rightarrow> Inr (slice0 (applyFilters opts (js_sort byScore results)) (limitOf opts)))"

definition semanticSearch ::
  "srv_env \<Rightarrow> srv_state \<Rightarrow> string \<Rightarrow> options \<Rightarrow> (error + jsnum scored list) \<times> srv_state"
where
  "semanticSearch env st query opts =
     (case loadKBData st (kbFile env) of
        (Inl e, st1) \<Rightarrow> (Inl e, st1)
      | (Inr v, st1) \<Rightarrow>
          (case getEmbeddingsCache env st1 of
             (cache, st2) \<Rightarrow>
               (if cache = [] \<or> \<not> truthy (OPENAI_API_KEY env) then textSearch env st2 query opts
                else (case getQueryEmbedding env of
                        Inl e \<Rightarrow> (Inl e, st2)
                      | Inr queryEmbedding \<Rightarrow>
                          (case v of
                             FalsyVal \<Rightarrow> (Inl TypeError, st2)
                           | Obj r data \<Rightarrow> (vectorRank cache queryEmbedding data opts, st2))))))"

section \<open>The client: \<^verbatim>\<open>apiSearch\<close> and \<^verbatim>\<open>search\<close>\<close>

text \<open>
  A result as the caller sees it: the entry with its relevance. The envelope has the
  properties \<^verbatim>\<open>summary\<close>, \<^verbatim>\<open>results\<close>, \<^verbatim>\<open>total\<close>, and the flags \<^verbatim>\<open>fallback\<close> and
  \<^verbatim>\<open>local\<close>, which are false when the property is missing.
\<close>

record hit =
  item :: entry
  relevance :: jsnum

record envelope =
  summaryText :: "string option"
  results :: "hit list"
  total :: nat
  fallback :: bool
  local :: bool

text \<open>
  What \<^verbatim>\<open>fetch\<close> and \<^verbatim>\<open>response.json()\<close> yield: the request fails, or a response
  arrives with a status and a body. The body is \<open>None\<close> when \<^verbatim>\<open>response.json()\<close> raises,
  the body not being JSON; a body that is JSON is taken to be an envelope, as the bodies are
  that the server sends with a success status. The bodies of its error answers are read by no
  one.
\<close>

datatype http = NetworkFailure | Response nat "envelope option"

definition response_ok :: "nat \<Rightarrow> bool" where
  "response_ok status = (200 \<le> status \<and> status \<le> 299)"

text \<open>\<^verbatim>\<open>results.map(r => ({ ...r.entry, relevance: Math.min(r.score * 10, 100) }))\<close>\<close>

definition localHit :: "lscored \<Rightarrow> hit" where
  "localHit r = \<lparr>item = entry r, relevance = Num (of_int (min (score r * 10) 100))\<rparr>"

text \<open>
  The \<^verbatim>\<open>catch\<close> branch of \<^verbatim>\<open>apiSearch\<close> calls \<^verbatim>\<open>localSearch(query, { category, limit })\<close>
  with the limit that the destructuring has defaulted to 10.
\<close>

definition fallbackOptions :: "options \<Rightarrow> options" where
  "fallbackOptions opts =
     \<lparr>categoryOpt = categoryOpt opts, dateFrom = Absent, dateTo = Absent,
      limit = Some (limitOf opts), includeSummary = None\<rparr>"

definition apiSearch ::
  "clock \<Rightarrow> kbfile option \<Rightarrow> kb_state \<Rightarrow> http \<Rightarrow> string \<Rightarrow> options \<Rightarrow> (error + envelope) \<times> kb_state"
where
  "apiSearch clk fs st reply query opts =
     (let viaLocal =
            (case localSearch clk fs st query (fallbackOptions opts) of
               (Inl e, st') \<Rightarrow> (Inl e, st')
             | (Inr rs, st') \<Rightarrow>
                 (Inr \<lparr>summaryText = None, results = map localHit rs, total = length rs,
                       fallback = True, local = False\<rparr>, st'))
      in case reply of
           NetworkFailure \<Rightarrow> viaLocal
         | Response status body \<Rightarrow>
             (if \<not> response_ok status then viaLocal
              else (case body of None \<Rightarrow> viaLocal | Some data \<Rightarrow> (Inr data, st))))"

text \<open>
  \<^verbatim>\<open>search\<close>, without the \<^verbatim>\<open>formatted\<close> text of its result. \<open>useApi\<close> is the option of
  that name, true by default.
\<close>

definition search ::
  "clock \<Rightarrow> kbfile option \<Rightarrow> kb_state \<Rightarrow> http \<Rightarrow> bool \<Rightarrow> string \<Rightarrow> options \<Rightarrow> (error + envelope) \<times> kb_state"
where
  "search clk fs st reply useApi query opts =
     (let direct = (\<lambda>st1.
            (case localSearch clk fs st1 query opts of
               (Inl e, st') \<Rightarrow> (Inl e, st')
             | (Inr rs, st') \<Rightarrow>
                 (Inr \<lparr>summaryText = None, results = map localHit rs, total = length rs,
                       fallback = False, local = True\<rparr>, st')))
      in if useApi
         then (case apiSearch clk fs st reply query opts of
                 (Inr data, st') \<Rightarrow> (Inr data, st')
               | (Inl e, st') \<Rightarrow> direct st')
         else direct st)"

section \<open>The route \<^verbatim>\<open>POST /search\<close> of the server\<close>

record request =
  rq_query :: field
  rq_options :: options

text \<open>\<^verbatim>\<open>!query || !query.trim()\<close>\<close>

definition queryMissing :: "field \<Rightarrow> bool" where
  "queryMissing q = (\<not> truthy q \<or> list_all is_space (or_empty q))"

text \<open>\<^verbatim>\<open>{ ...r.entry, relevance: Math.round(r.score * 100) }\<close>\<close>

definition serverHit :: "jsnum scored \<Rightarrow> hit" where
  "serverHit r = \<lparr>item = entry r, relevance = jround (jmul (score r) (Num 100))\<rparr>"

text \<open>The decimal digits of a number, as the template \<^verbatim>\<open>`${n}`\<close> prints it.\<close>

fun show_nat :: "nat \<Rightarrow> string" where
  "show_nat n =
     (if n < 10 then [char_of (48 + n)] else show_nat (n div 10) @ [char_of (48 + n mod 10)])"

declare show_nat.simps [simp del]

definition noMatchText :: string where
  "noMatchText = ''I couldn't find any entries matching your query. Try different keywords or broaden your search.''"

text \<open>
  The handler answers with a status and, for status 200, an envelope; the bodies of the
  error answers are not envelopes. The destructuring defaults \<^verbatim>\<open>limit\<close> to 10 and
  \<^verbatim>\<open>includeSummary\<close> to true.
\<close>

definition post_search :: "srv_env \<Rightarrow> srv_state \<Rightarrow> request \<Rightarrow> http \<times> srv_state" where
  "post_search env st req =
     (if queryMissing (rq_query req) then (Response 400 None, st)
      else
        (let query = or_empty (rq_query req);
             opts = rq_options req
         in case semanticSearch env st query (opts\<lparr>limit := Some (limitOf opts)\<rparr>) of
              (Inl e, st') \<Rightarrow> (Response 500 None, st')
            | (Inr searchResults, st') \<Rightarrow>
                (if length searchResults = 0
                 then (Response 200 (Some \<lparr>summaryText = Some noMatchText, results = [], total = 0,
                                           fallback = False, local = False\<rparr>), st')
                 else
                   (let summary = (if includeSummary opts = Some False then None else narration env);
                        shown = (case summary of
                                   None \<Rightarrow> ''Found '' @ show_nat (length searchResults) @ '' relevant entries.''
                                 | Some t \<Rightarrow>
                                     (if t = [] then ''Found '' @ show_nat (length searchResults) @ '' relevant entries.''
                                      else t))
                    in (Response 200 (Some \<lparr>summaryText = Some shown,
                                             results = map serverHit searchResults,
                                             total = length searchResults,
                                             fallback = False, local = False\<rparr>), st')))))"

text \<open>The body that \<^verbatim>\<open>apiSearch\<close> posts.\<close>

definition requestOf :: "string \<Rightarrow> options \<Rightarrow> request" where
  "requestOf query opts =
     \<lparr>rq_query = Str query,
      rq_options = opts\<lparr>limit := Some (limitOf opts),
                        includeSummary := Some (includeSummary opts \<noteq> Some False)\<rparr>\<rparr>"

section \<open>Quantities used in the statements\<close>

text \<open>The number of query words, repetitions counted, that occur in the text of an entry.\<close>

definition matched :: "string list \<Rightarrow> entry \<Rightarrow> int" where
  "matched queryWords e = int (length (filter (str_includes (entryText e)) queryWords))"

text \<open>The category test of \<^verbatim>\<open>localSearch\<close>, on an entry.\<close>

definition localKeeps :: "options \<Rightarrow> entry \<Rightarrow> bool" where
  "localKeeps opts e =
     (categoryActive opts \<longrightarrow> toLowerCase (category e) = toLowerCase (or_empty (categoryOpt opts)))"

text \<open>The three filters of the server, on an entry.\<close>

definition passesFilters :: "options \<Rightarrow> entry \<Rightarrow> bool" where
  "passesFilters opts e =
     ((categoryActive opts \<longrightarrow> category e = or_empty (categoryOpt opts))
      \<and> (truthy (dateFrom opts) \<longrightarrow>
           \<not> truthy (date e) \<or> or_empty (date e) \<ge> or_empty (dateFrom opts))
      \<and> (truthy (dateTo opts) \<longrightarrow>
           \<not> truthy (date e) \<or> or_empty (date e) \<le> or_empty (dateTo opts)))"

text \<open>
  The boosts as the specification words them: 10 when the full query occurs in the title,
  otherwise 5 when every query word occurs in the title; 3 when the full query occurs in the
  summary; 2 when it occurs in the source.
\<close>

definition specBoosts :: "string \<Rightarrow> string list \<Rightarrow> entry \<Rightarrow> int" where
  "specBoosts queryLower queryWords e =
     (if str_includes (toLowerCase (title e)) queryLower then 10
      else if list_all (str_includes (toLowerCase (title e))) queryWords then 5 else 0)
     + (if opt_includes (summary e) queryLower then 3 else 0)
     + (if opt_includes (source e) queryLower then 2 else 0)"

text \<open>
  The call of the search API fails for \<^verbatim>\<open>apiSearch\<close>: the request fails, the status is
  not a success, or the body is not JSON.
\<close>

definition apiFails :: "http \<Rightarrow> bool" where
  "apiFails reply =
     (case reply of
        NetworkFailure \<Rightarrow> True
      | Response status body \<Rightarrow> \<not> response_ok status \<or> body = None)"

section \<open>Sample data\<close>

definition clock0 :: clock where
  "clock0 = \<lparr>now = 1718000000000,
             parseDate = (\<lambda>s. if s = ''2024-06-01'' then Some 1717200000000
                                else if s = ''2024-01-01'' then Some 1704067200000 else None)\<rparr>"

definition entryA :: entry where
  "entryA = \<lparr>ident = 1, title = ''Karpathy releases new tokenizer'', summary = Absent,
             category = ''research'', source = Absent, tags = None, date = Str ''2024-01-01'',
             url = ''https://example.org/1''\<rparr>"

definition entryB :: entry where
  "entryB = \<lparr>ident = 2, title = ''Weather report'', summary = Absent,
             category = ''misc'', source = Absent, tags = None, date = Str ''2024-06-01'',
             url = ''https://example.org/2''\<rparr>"

definition entryC :: entry where
  "entryC = \<lparr>ident = 3, title = ''abc'', summary = Str ''abc'',
             category = ''notes'', source = Str ''abc'', tags = Some [''x'', ''y''], date = Absent,
             url = ''https://example.org/3''\<rparr>"

definition sampleKB :: snapshot where
  "sampleKB = \<lparr>entries = [entryA, entryB], categories = [''research'', ''misc''],
               lastUpdated = ''2024-06-01''\<rparr>"

definition options0 :: options where
  "options0 = \<lparr>categoryOpt = Absent, dateFrom = Absent, dateTo = Absent, limit = None,
               includeSummary = None\<rparr>"

definition client0 :: kb_state where
  "client0 = \<lparr>kbCache = None, kbLastModified = None, parsed = 0\<rparr>"

definition sampleFile :: kbfile where
  "sampleFile = \<lparr>mtime = 1717200000000, content = Doc sampleKB\<rparr>"


definition sampleCache :: embeddings where
  "sampleCache = [(1, [1, 0])]"

definition otherKB :: snapshot where
  "otherKB = \<lparr>entries = [entryC], categories = [''notes''], lastUpdated = ''2024-06-02''\<rparr>"

definition changedFile :: kbfile where
  "changedFile = \<lparr>mtime = 1717300000000, content = Doc otherKB\<rparr>"

definition server0 :: srv_state where
  "server0 = \<lparr>kbData = None, embeddingsCache = None, srv_parsed = 0\<rparr>"

definition serverNoKey :: srv_env where
  "serverNoKey = \<lparr>kbFile = Some sampleFile, cacheFile = NoCacheFile, OPENAI_API_KEY = Absent,
                  generated = [], queryReply = FetchFailed, narration = None\<rparr>"

definition serverWithKey :: srv_env where
  "serverWithKey = \<lparr>kbFile = Some sampleFile, cacheFile = CacheFile sampleCache,
                    OPENAI_API_KEY = Str ''sk-test'', generated = [], queryReply = FetchFailed,
                    narration = None\<rparr>"

definition localEnvelope :: envelope where
  "localEnvelope = \<lparr>summaryText = None,
      results = [\<lparr>item = entryA, relevance = Num 100\<rparr>, \<lparr>item = entryB, relevance = Num 20\<rparr>],
      total = 2, fallback = True, local = False\<rparr>"

definition serverEnvelope :: envelope where
  "serverEnvelope = \<lparr>summaryText = Some ''Found 1 relevant entries.'',
      results = [\<lparr>item = entryA, relevance = Num 100\<rparr>], total = 1,
      fallback = False, local = False\<rparr>"

definition serverBadAnswer :: srv_env where
  "serverBadAnswer = \<lparr>kbFile = Some sampleFile, cacheFile = CacheFile [(99, [1, 0])],
                      OPENAI_API_KEY = Str ''sk-test'', generated = [], queryReply = Embedding None,
                      narration = None\<rparr>"

section \<open>Lemmas on the array and string methods\<close>

lemma mset_insert_by: "mset (insert_by f x ys) = add_mset x (mset ys)"
  by (induction ys) simp_all

lemma mset_js_sort: "mset (js_sort f xs) = mset xs"
  unfolding js_sort_def by (induction xs) (simp_all add: mset_insert_by)

lemma set_js_sort: "set (js_sort f xs) = set xs"
  using mset_js_sort [of f xs] by (metis set_mset_mset)

lemma length_js_sort: "length (js_sort f xs) = length xs"
  using mset_js_sort [of f xs] by (metis size_mset)

lemma length_slice0: "0 \<le> e \<Longrightarrow> length (slice0 xs e) = min (nat e) (length xs)"
  by (simp add: slice0_def)

lemma set_slice0: "set (slice0 xs e) \<subseteq> set xs"
  by (auto simp: slice0_def dest: in_set_takeD)

lemma slice0_all: "int (length xs) \<le> e \<Longrightarrow> slice0 xs e = xs"
  by (simp add: slice0_def)

lemma str_includes_empty: "str_includes s []"
  by (simp add: str_includes_def)

lemma toLowerCase_empty: "toLowerCase [] = []"
  by (simp add: toLowerCase_def)

lemma queryWordsOf_empty: "queryWordsOf [] = []"
  by (simp add: queryWordsOf_def split_ws_def)

lemma dateBoost_range: "0 \<le> dateBoost clk e \<and> dateBoost clk e \<le> 2"
  by (simp add: dateBoost_def split: field.split option.split)

lemma opt_includes_empty: "opt_includes f [] = (\<exists>s. f = Str s)"
  by (cases f) (simp_all add: str_includes_empty)

lemma score_empty_query:
  "score (scoreEntry clk [] [] e) =
     10 + (if \<exists>s. summary e = Str s then 3 else 0) + (if \<exists>s. source e = Str s then 2 else 0)
        + dateBoost clk e"
  by (simp add: scoreEntry_def str_includes_empty opt_includes_empty)

lemma entry_scoreEntry: "entry (scoreEntry clk q ws e) = e"
  by (simp add: scoreEntry_def Let_def split: prod.split)

section \<open>Lemmas on the lexical scorers\<close>

lemma wordLoop_score:
  "fst (wordLoop text ws (sc, ms)) = sc + int (length (filter (str_includes text) ws))"
  by (induction ws arbitrary: sc ms) simp_all

lemma textLoop_score:
  "foldl (\<lambda>sc w. if str_includes text w then sc + 1 else sc) (sc :: int) ws
     = sc + int (length (filter (str_includes text) ws))"
  by (induction ws arbitrary: sc) simp_all

lemma toLowerCase_append: "toLowerCase (a @ b) = toLowerCase a @ toLowerCase b"
  by (simp add: toLowerCase_def)

lemma title_in_text: "str_includes (toLowerCase (title e)) w \<Longrightarrow> str_includes (entryText e) w"
  unfolding entryText_def toLowerCase_append str_includes_def
  by (metis sublist_append)

lemma score_scoreEntry:
  "score (scoreEntry clk ql ws e) =
     matched ws e
     + (if str_includes (toLowerCase (title e)) ql then 10
        else if list_all (str_includes (toLowerCase (title e))) ws then 5 else 0)
     + (if opt_includes (summary e) ql then 3 else 0)
     + (if opt_includes (source e) ql then 2 else 0)
     + dateBoost clk e"
proof -
  obtain s1 ms where w: "wordLoop (entryText e) ws (0, []) = (s1, ms)"
    by (cases "wordLoop (entryText e) ws (0, [])")
  have "s1 = matched ws e"
    using wordLoop_score [of "entryText e" ws 0 "[]"] w by (simp add: matched_def)
  then show ?thesis
    by (simp add: scoreEntry_def w)
qed

lemma score_textScore:
  "score (textScore ql ws e) =
     Num (of_int (matched ws e
            + (if str_includes (toLowerCase (title e)) ql then 5 else 0)
            + (if opt_includes (summary e) ql then 3 else 0))
          / of_nat (length ws + 5))"
  by (simp add: textScore_def textLoop_score matched_def)

lemma matched_nonneg: "0 \<le> matched ws e"
  by (simp add: matched_def)

lemma matched_zero: "\<not> list_ex (str_includes (entryText e)) ws \<Longrightarrow> matched ws e = 0"
  by (simp add: matched_def list_ex_iff filter_empty_conv)

lemma no_word_no_title_boost:
  assumes "ws \<noteq> []" and "\<not> list_ex (str_includes (entryText e)) ws"
  shows "\<not> list_all (str_includes (toLowerCase (title e))) ws"
proof
  assume all: "list_all (str_includes (toLowerCase (title e))) ws"
  from assms(1) obtain w where "w \<in> set ws" by (cases ws) auto
  with all have "str_includes (toLowerCase (title e)) w" by (simp add: list_all_iff)
  then have "str_includes (entryText e) w" by (rule title_in_text)
  with \<open>w \<in> set ws\<close> assms(2) show False by (auto simp: list_ex_iff)
qed

lemma localRank_empty_query:
  assumes "0 \<le> limitOf opts"
  shows "length (localRank clk data [] opts) =
           min (nat (limitOf opts))
               (length (filter (\<lambda>e. categoryActive opts \<longrightarrow>
                    toLowerCase (category e) = toLowerCase (or_empty (categoryOpt opts))) (entries data)))"
    and "\<forall>x \<in> set (localRank clk data [] opts). 10 \<le> score x"
proof -
  let ?sc = "map (scoreEntry clk [] []) (entries data)"
  let ?keep = "\<lambda>r :: lscored. toLowerCase (category (entry r)) = toLowerCase (or_empty (categoryOpt opts))"
  let ?flt = "if categoryActive opts then filter ?keep ?sc else ?sc"
  let ?srt = "js_sort (\<lambda>a b. score b - score a > 0) ?flt"
  have big: "\<forall>x \<in> set ?sc. 10 \<le> score x"
  proof
    fix x assume "x \<in> set ?sc"
    then obtain e where "x = scoreEntry clk [] [] e" by auto
    then show "10 \<le> score x"
      using dateBoost_range [of clk e] by (simp add: score_empty_query)
  qed
  have sub: "set ?flt \<subseteq> set ?sc" by auto
  have bigf: "\<forall>x \<in> set ?srt. 10 \<le> score x"
    using big sub unfolding set_js_sort by blast
  have keepall: "filter (\<lambda>r. score r > 0) ?srt = ?srt"
  proof (rule filter_True, rule ballI)
    fix x assume "x \<in> set ?srt"
    with bigf have "10 \<le> score x" by blast
    then show "0 < score x" by simp
  qed
  have "localRank clk data [] opts = slice0 (filter (\<lambda>r. score r > 0) ?srt) (limitOf opts)"
    by (cases "categoryActive opts")
       (simp_all add: localRank_def Let_def toLowerCase_empty queryWordsOf_empty)
  then have unf: "localRank clk data [] opts = slice0 ?srt (limitOf opts)"
    by (simp only: keepall)
  have len: "length ?flt = length (filter (\<lambda>e. categoryActive opts \<longrightarrow>
                    toLowerCase (category e) = toLowerCase (or_empty (categoryOpt opts))) (entries data))"
    by (cases "categoryActive opts") (simp_all add: filter_map o_def entry_scoreEntry)
  have "length (localRank clk data [] opts) = min (nat (limitOf opts)) (length ?srt)"
    unfolding unf using assms by (rule length_slice0)
  also have "length ?srt = length ?flt" by (rule length_js_sort)
  finally show "length (localRank clk data [] opts) =
           min (nat (limitOf opts))
               (length (filter (\<lambda>e. categoryActive opts \<longrightarrow>
                    toLowerCase (category e) = toLowerCase (or_empty (categoryOpt opts))) (entries data)))"
    unfolding len .
  show "\<forall>x \<in> set (localRank clk data [] opts). 10 \<le> score x"
    using bigf set_slice0 [of ?srt "limitOf opts"] unfolding unf by blast
qed

lemma localSearch_loaded:
  assumes "fst (loadKB st fs) = Inr (Obj r data)"
  shows "fst (localSearch clk fs st q opts) = Inr (localRank clk data q opts)"
  using assms by (cases "loadKB st fs") (simp add: localSearch_def)

section \<open>The empty query\<close>

text \<open>
  C10. For the empty query string the lexical search of \<^verbatim>\<open>search-agent.js\<close> gives every
  entry the score 10, plus 3 when it has a summary, plus 2 when it has a source, plus the date
  boost; so every entry passes the filter \<^verbatim>\<open>score > 0\<close>, and the search returns as many
  entries as the limit allows among those that pass the category filter.
\<close>

theorem empty_query_matches_every_entry:
  assumes "fst (loadKB st fs) = Inr (Obj r data)" and "0 \<le> limitOf opts"
  shows "(\<forall>e. score (scoreEntry clk (toLowerCase []) (queryWordsOf (toLowerCase [])) e) =
              10 + (if \<exists>s. summary e = Str s then 3 else 0)
                 + (if \<exists>s. source e = Str s then 2 else 0) + dateBoost clk e
            \<and> 10 \<le> score (scoreEntry clk (toLowerCase []) (queryWordsOf (toLowerCase [])) e))
       \<and> (\<exists>rs. fst (localSearch clk fs st [] opts) = Inr rs
            \<and> (\<forall>x \<in> set rs. 0 < score x)
            \<and> length rs = min (nat (limitOf opts))
                 (length (filter (\<lambda>e. categoryActive opts \<longrightarrow>
                    toLowerCase (category e) = toLowerCase (or_empty (categoryOpt opts))) (entries data))))"
proof -
  have a: "fst (localSearch clk fs st [] opts) = Inr (localRank clk data [] opts)"
    using assms(1) by (rule localSearch_loaded)
  have b: "\<forall>x \<in> set (localRank clk data [] opts). 0 < score x"
  proof
    fix x assume "x \<in> set (localRank clk data [] opts)"
    then have "10 \<le> score x" using localRank_empty_query(2) [OF assms(2)] by blast
    then show "0 < score x" by simp
  qed
  have s: "\<And>e. score (scoreEntry clk (toLowerCase []) (queryWordsOf (toLowerCase [])) e) =
              10 + (if \<exists>s. summary e = Str s then 3 else 0)
                 + (if \<exists>s. source e = Str s then 2 else 0) + dateBoost clk e"
    by (simp only: toLowerCase_empty queryWordsOf_empty score_empty_query)
  have t: "\<And>e. 10 \<le> score (scoreEntry clk (toLowerCase []) (queryWordsOf (toLowerCase [])) e)"
    using dateBoost_range [of clk] unfolding s by (simp add: add_nonneg_nonneg)
  from a b localRank_empty_query(1) [OF assms(2), of clk data] s t show ?thesis by blast
qed

theorem empty_query_matches_every_entry_witness:
  "fst (loadKB client0 (Some sampleFile)) = Inr (Obj 0 sampleKB)
   \<and> 0 \<le> limitOf (options0\<lparr>limit := Some 1\<rparr>)
   \<and> (\<exists>rs. fst (localSearch clock0 (Some sampleFile) client0 [] (options0\<lparr>limit := Some 1\<rparr>)) = Inr rs
         \<and> length rs = 1)"
proof -
  have h1: "fst (loadKB client0 (Some sampleFile)) = Inr (Obj 0 sampleKB)"
    by (simp add: loadKB_def parseInto_def client0_def sampleFile_def)
  have h2: "0 \<le> limitOf (options0\<lparr>limit := Some 1\<rparr>)"
    by (simp add: limitOf_def)
  have n: "min (nat (limitOf (options0\<lparr>limit := Some 1\<rparr>)))
            (length (filter (\<lambda>e. categoryActive (options0\<lparr>limit := Some 1\<rparr>) \<longrightarrow>
               toLowerCase (category e) = toLowerCase (or_empty (categoryOpt (options0\<lparr>limit := Some 1\<rparr>))))
               (entries sampleKB))) = 1"
    by (simp add: limitOf_def categoryActive_def options0_def sampleKB_def)
  from empty_query_matches_every_entry [OF h1 h2, of clock0] n
  have "\<exists>rs. fst (localSearch clock0 (Some sampleFile) client0 [] (options0\<lparr>limit := Some 1\<rparr>)) = Inr rs
         \<and> length rs = 1"
    by auto
  with h1 h2 show ?thesis by blast
qed

section \<open>The lexical score\<close>

text \<open>
  The claim C2 as stated fails: an entry in which nothing of the query occurs still gets the
  date boost (the query \<^verbatim>\<open>zzz\<close> against a recent entry scores 2), and a query without a
  word longer than two characters gets 5 for the title (the query \<^verbatim>\<open>ml\<close> scores 5).
\<close>

theorem lexical_score_zero_counterexample:
  "\<not> list_ex (str_includes (entryText entryB)) (queryWordsOf (toLowerCase ''zzz''))
   \<and> \<not> str_includes (toLowerCase (title entryB)) (toLowerCase ''zzz'')
   \<and> \<not> opt_includes (summary entryB) (toLowerCase ''zzz'')
   \<and> \<not> opt_includes (source entryB) (toLowerCase ''zzz'')
   \<and> score (scoreEntry clock0 (toLowerCase ''zzz'') (queryWordsOf (toLowerCase ''zzz'')) entryB) = 2
   \<and> \<not> list_ex (str_includes (entryText entryC)) (queryWordsOf (toLowerCase ''ml''))
   \<and> \<not> str_includes (toLowerCase (title entryC)) (toLowerCase ''ml'')
   \<and> \<not> opt_includes (summary entryC) (toLowerCase ''ml'')
   \<and> \<not> opt_includes (source entryC) (toLowerCase ''ml'')
   \<and> score (scoreEntry clock0 (toLowerCase ''ml'') (queryWordsOf (toLowerCase ''ml'')) entryC) = 5"
  by code_simp

text \<open>
  C2, amended. The lexical score is never negative. It is 0 when the query has at least one
  word longer than two characters, none of these words occurs in the text of the entry, the
  full query occurs neither in the title nor in the summary nor in the source, and the entry
  gets no date boost.
\<close>

theorem lexical_score_nonneg_zero:
  "0 \<le> score (scoreEntry clk (toLowerCase q) (queryWordsOf (toLowerCase q)) e)
   \<and> (queryWordsOf (toLowerCase q) \<noteq> []
        \<and> \<not> list_ex (str_includes (entryText e)) (queryWordsOf (toLowerCase q))
        \<and> \<not> str_includes (toLowerCase (title e)) (toLowerCase q)
        \<and> \<not> opt_includes (summary e) (toLowerCase q)
        \<and> \<not> opt_includes (source e) (toLowerCase q)
        \<and> dateBoost clk e = 0
      \<longrightarrow> score (scoreEntry clk (toLowerCase q) (queryWordsOf (toLowerCase q)) e) = 0)"
proof
  show "0 \<le> score (scoreEntry clk (toLowerCase q) (queryWordsOf (toLowerCase q)) e)"
    using matched_nonneg [of "queryWordsOf (toLowerCase q)" e] dateBoost_range [of clk e]
    by (simp add: score_scoreEntry)
next
  show "queryWordsOf (toLowerCase q) \<noteq> []
        \<and> \<not> list_ex (str_includes (entryText e)) (queryWordsOf (toLowerCase q))
        \<and> \<not> str_includes (toLowerCase (title e)) (toLowerCase q)
        \<and> \<not> opt_includes (summary e) (toLowerCase q)
        \<and> \<not> opt_includes (source e) (toLowerCase q)
        \<and> dateBoost clk e = 0
      \<longrightarrow> score (scoreEntry clk (toLowerCase q) (queryWordsOf (toLowerCase q)) e) = 0"
    using matched_zero [of e "queryWordsOf (toLowerCase q)"]
      no_word_no_title_boost [of "queryWordsOf (toLowerCase q)" e]
    by (simp add: score_scoreEntry)
qed

theorem lexical_score_nonneg_zero_witness:
  "queryWordsOf (toLowerCase ''zzz'') \<noteq> []
   \<and> \<not> list_ex (str_includes (entryText entryA)) (queryWordsOf (toLowerCase ''zzz''))
   \<and> \<not> str_includes (toLowerCase (title entryA)) (toLowerCase ''zzz'')
   \<and> \<not> opt_includes (summary entryA) (toLowerCase ''zzz'')
   \<and> \<not> opt_includes (source entryA) (toLowerCase ''zzz'')
   \<and> dateBoost clock0 entryA = 0
   \<and> score (scoreEntry clock0 (toLowerCase ''zzz'') (queryWordsOf (toLowerCase ''zzz'')) entryA) = 0"
proof -
  have h: "queryWordsOf (toLowerCase ''zzz'') \<noteq> []
   \<and> \<not> list_ex (str_includes (entryText entryA)) (queryWordsOf (toLowerCase ''zzz''))
   \<and> \<not> str_includes (toLowerCase (title entryA)) (toLowerCase ''zzz'')
   \<and> \<not> opt_includes (summary entryA) (toLowerCase ''zzz'')
   \<and> \<not> opt_includes (source entryA) (toLowerCase ''zzz'')
   \<and> dateBoost clock0 entryA = 0"
    by code_simp
  with lexical_score_nonneg_zero [of clock0 "''zzz''" entryA] show ?thesis by blast
qed

section \<open>Lemmas on ranking\<close>

lemma length_filter_js_sort: "length (filter P (js_sort f xs)) = length (filter P xs)"
proof -
  have "mset (filter P (js_sort f xs)) = mset (filter P xs)"
    by (simp add: mset_js_sort)
  then show ?thesis by (metis size_mset)
qed

lemma slice0_short: "int (length (slice0 xs e)) < e \<Longrightarrow> slice0 xs e = xs"
  by (auto simp: slice0_def split: if_splits)

lemma applyFilters_filter:
  "applyFilters opts rs = filter (\<lambda>r. passesFilters opts (entry r)) rs"
  by (auto simp: applyFilters_def passesFilters_def Let_def intro: filter_cong)

lemma localRank_unfold:
  "localRank clk data q opts =
     slice0 (filter (\<lambda>r. 0 < score r)
              (js_sort (\<lambda>a b. score b - score a > 0)
                (filter (\<lambda>r. localKeeps opts (entry r))
                  (map (scoreEntry clk (toLowerCase q) (queryWordsOf (toLowerCase q))) (entries data)))))
            (limitOf opts)"
  by (cases "categoryActive opts") (simp_all add: localRank_def Let_def localKeeps_def)

lemma textRank_unfold:
  "textRank data q opts =
     slice0 (filter (\<lambda>r. jpositive (score r))
              (filter (\<lambda>r. passesFilters opts (entry r))
                (js_sort byScore
                  (map (textScore (toLowerCase q) (queryWordsOf (toLowerCase q))) (entries data)))))
            (limitOf opts)"
  by (simp add: textRank_def Let_def applyFilters_filter)

lemma entry_textScore: "entry (textScore ql ws e) = e"
  by (simp add: textScore_def Let_def)

lemma vectorScore_entry: "vectorScore cache qe e = Inr r \<Longrightarrow> entry r = e"
  by (auto simp: vectorScore_def split: option.splits sum.splits)

lemma map_raising_entries:
  assumes "\<And>x y. f x = Inr y \<Longrightarrow> entry y = x"
  shows "map_raising f xs = Inr ys \<Longrightarrow> map entry ys = xs"
proof (induction xs arbitrary: ys)
  case Nil
  then show ?case by simp
next
  case (Cons x xs)
  then show ?case using assms by (auto split: sum.splits)
qed

lemma vectorRank_unfold:
  assumes "vectorRank cache qe data opts = Inr rs"
  obtains scoredAll where "map_raising (vectorScore cache qe) (entries data) = Inr scoredAll"
    and "map entry scoredAll = entries data"
    and "rs = slice0 (filter (\<lambda>r. passesFilters opts (entry r)) (js_sort byScore scoredAll)) (limitOf opts)"
proof -
  from assms obtain scoredAll where m: "map_raising (vectorScore cache qe) (entries data) = Inr scoredAll"
    by (auto simp: vectorRank_def split: sum.splits)
  have e: "map entry scoredAll = entries data"
    using map_raising_entries [OF vectorScore_entry m] .
  have "rs = slice0 (filter (\<lambda>r. passesFilters opts (entry r)) (js_sort byScore scoredAll)) (limitOf opts)"
    using assms m by (simp add: vectorRank_def applyFilters_filter)
  with m e show ?thesis using that by blast
qed

lemma length_filter_entry:
  "length (filter (\<lambda>r. P (entry r)) rs) = length (filter P (map entry rs))"
  by (simp add: filter_map o_def)

lemma limitOf_category: "limitOf (opts\<lparr>categoryOpt := c\<rparr>) = limitOf opts"
  by (simp add: limitOf_def)

lemma localKeeps_Absent: "localKeeps (opts\<lparr>categoryOpt := Absent\<rparr>) e"
  by (simp add: localKeeps_def categoryActive_def)

lemma passesFilters_Absent:
  "passesFilters (opts\<lparr>categoryOpt := c\<rparr>) e \<Longrightarrow> passesFilters (opts\<lparr>categoryOpt := Absent\<rparr>) e"
  by (simp add: passesFilters_def categoryActive_def)

lemma narrowing_generic:
  assumes short: "int (length (slice0 (filter P (js_sort f (filter KA xs))) L)) < L"
    and mono: "\<And>x. KC x \<Longrightarrow> KA x"
  shows "set (slice0 (filter P (js_sort f (filter KC xs))) L)
           \<subseteq> set (slice0 (filter P (js_sort f (filter KA xs))) L)"
proof -
  have "slice0 (filter P (js_sort f (filter KA xs))) L = filter P (js_sort f (filter KA xs))"
    using short by (rule slice0_short)
  moreover have "set (slice0 (filter P (js_sort f (filter KC xs))) L)
           \<subseteq> set (filter P (js_sort f (filter KC xs)))"
    by (rule set_slice0)
  moreover have "set (filter P (js_sort f (filter KC xs))) \<subseteq> set (filter P (js_sort f (filter KA xs)))"
    using mono by (auto simp: set_js_sort)
  ultimately show ?thesis by simp
qed

lemma narrowing_generic2:
  assumes short: "int (length (slice0 (filter P (filter KA (js_sort f xs))) L)) < L"
    and mono: "\<And>x. KC x \<Longrightarrow> KA x"
  shows "set (slice0 (filter P (filter KC (js_sort f xs))) L)
           \<subseteq> set (slice0 (filter P (filter KA (js_sort f xs))) L)"
proof -
  have "slice0 (filter P (filter KA (js_sort f xs))) L = filter P (filter KA (js_sort f xs))"
    using short by (rule slice0_short)
  moreover have "set (slice0 (filter P (filter KC (js_sort f xs))) L)
           \<subseteq> set (filter P (filter KC (js_sort f xs)))"
    by (rule set_slice0)
  moreover have "set (filter P (filter KC (js_sort f xs))) \<subseteq> set (filter P (filter KA (js_sort f xs)))"
    using mono by auto
  ultimately show ?thesis by simp
qed


lemma cosine_sample: "cosineSimilarity (Some [1, 0]) [1, 0] = Inr (Num 1)"
  by (simp add: cosineSimilarity_def cosStep_def elemAt_def upt_rec)

lemma scores_sample:
  "map_raising (vectorScore sampleCache (Some [1, 0])) (entries sampleKB)
     = Inr [\<lparr>entry = entryA, score = Num 1\<rparr>, \<lparr>entry = entryB, score = Num 0\<rparr>]"
  by (simp add: vectorScore_def sampleCache_def sampleKB_def entryA_def entryB_def cosine_sample)

lemma sort_sample:
  "js_sort byScore [\<lparr>entry = entryA, score = Num 1\<rparr>, \<lparr>entry = entryB, score = Num 0\<rparr>]
    = [\<lparr>entry = entryA, score = Num 1\<rparr>, \<lparr>entry = entryB, score = Num 0\<rparr>]"
  by (simp add: js_sort_def byScore_def jsub_def)

lemma vectorRank_sample:
  "vectorRank sampleCache (Some [1, 0]) sampleKB (options0\<lparr>categoryOpt := Absent\<rparr>)
     = Inr [\<lparr>entry = entryA, score = Num 1\<rparr>, \<lparr>entry = entryB, score = Num 0\<rparr>]"
  by (simp add: vectorRank_def scores_sample sort_sample applyFilters_def categoryActive_def
      options0_def slice0_def limitOf_def)

lemma vectorRank_sample_misc:
  "vectorRank sampleCache (Some [1, 0]) sampleKB (options0\<lparr>categoryOpt := Str ''misc''\<rparr>)
     = Inr [\<lparr>entry = entryB, score = Num 0\<rparr>]"
  by (simp add: vectorRank_def scores_sample sort_sample applyFilters_def categoryActive_def
      options0_def slice0_def limitOf_def) (simp add: entryA_def entryB_def)


section \<open>The boosts of the lexical scorers\<close>

text \<open>
  The claim C4 as stated fails on the lexical scorer of the server: for the query
  \<^verbatim>\<open>abc\<close> and an entry whose title, summary and source are \<^verbatim>\<open>abc\<close>, the word count
  and the boosts of the claim add up to 16, while \<^verbatim>\<open>textSearch\<close> computes 9 and divides it
  by 6.
\<close>

theorem text_boosts_counterexample:
  "score (textScore (toLowerCase ''abc'') (queryWordsOf (toLowerCase ''abc'')) entryC) = Num (9 / 6)
   \<and> matched (queryWordsOf (toLowerCase ''abc'')) entryC
       + specBoosts (toLowerCase ''abc'') (queryWordsOf (toLowerCase ''abc'')) entryC = 16"
  by code_simp

text \<open>
  C4, amended. The scorer of \<^verbatim>\<open>localSearch\<close> adds, to the number of query words found, 10
  when the full query occurs in the title, otherwise 5 when every query word occurs in the
  title, and independently 3 for the summary and 2 for the source, and then the date boost. The
  scorer of \<^verbatim>\<open>textSearch\<close> adds 5 when the full query occurs in the title and 3 when it occurs
  in the summary, and divides the sum by the number of query words plus 5.
\<close>

theorem lexical_boosts:
  "score (scoreEntry clk (toLowerCase q) (queryWordsOf (toLowerCase q)) e) =
     matched (queryWordsOf (toLowerCase q)) e
     + specBoosts (toLowerCase q) (queryWordsOf (toLowerCase q)) e
     + dateBoost clk e
   \<and> score (textScore (toLowerCase q) (queryWordsOf (toLowerCase q)) e) =
       Num (of_int (matched (queryWordsOf (toLowerCase q)) e
              + (if str_includes (toLowerCase (title e)) (toLowerCase q) then 5 else 0)
              + (if opt_includes (summary e) (toLowerCase q) then 3 else 0))
            / of_nat (length (queryWordsOf (toLowerCase q)) + 5))"
  by (simp only: score_scoreEntry score_textScore specBoosts_def) simp

theorem lexical_boosts_witness:
  "score (scoreEntry clock0 (toLowerCase ''Abc'') (queryWordsOf (toLowerCase ''Abc'')) entryC) = 16
   \<and> score (textScore (toLowerCase ''Abc'') (queryWordsOf (toLowerCase ''Abc'')) entryC) = Num (3 / 2)"
proof -
  have m: "matched (queryWordsOf (toLowerCase ''Abc'')) entryC = 1"
    and b: "specBoosts (toLowerCase ''Abc'') (queryWordsOf (toLowerCase ''Abc'')) entryC = 15"
    and d: "dateBoost clock0 entryC = 0"
    and q: "length (queryWordsOf (toLowerCase ''Abc'')) = 1"
    and t: "str_includes (toLowerCase (title entryC)) (toLowerCase ''Abc'')"
    and s: "opt_includes (summary entryC) (toLowerCase ''Abc'')"
    by code_simp+
  show ?thesis
    using lexical_boosts [of clock0 "''Abc''" entryC] unfolding m b d q using t s by simp
qed

section \<open>The zero-score policy\<close>

text \<open>
  C3. The lexical searches return only entries whose score is greater than 0, and the limit is
  applied to what remains after that: the number of entries returned is the smaller of the
  limit and the number of filtered entries with a positive score. The vector search returns the
  smaller of the limit and the number of filtered entries, whatever their scores; when the
  limit does not cut, the returned entries are all the filtered ones. An entry without a cached
  embedding has the score 0 and is ranked like the others.
\<close>

theorem zero_score_policy:
  assumes "0 \<le> limitOf opts"
  shows "(\<forall>r \<in> set (localRank clk data q opts). 0 < score r)
       \<and> length (localRank clk data q opts) =
           min (nat (limitOf opts))
             (length (filter (\<lambda>e. localKeeps opts e
                  \<and> 0 < score (scoreEntry clk (toLowerCase q) (queryWordsOf (toLowerCase q)) e))
                (entries data)))
       \<and> (\<forall>r \<in> set (textRank data q opts). jpositive (score r))
       \<and> length (textRank data q opts) =
           min (nat (limitOf opts))
             (length (filter (\<lambda>e. passesFilters opts e
                  \<and> jpositive (score (textScore (toLowerCase q) (queryWordsOf (toLowerCase q)) e)))
                (entries data)))
       \<and> (\<forall>rs. vectorRank cache qe data opts = Inr rs \<longrightarrow>
             length rs = min (nat (limitOf opts)) (length (filter (passesFilters opts) (entries data)))
             \<and> (int (length (entries data)) \<le> limitOf opts \<longrightarrow>
                  mset (map entry rs) = mset (filter (passesFilters opts) (entries data))))
       \<and> (\<forall>e. map_of cache (ident e) = None \<longrightarrow>
             vectorScore cache qe e = Inr \<lparr>entry = e, score = Num 0\<rparr>)"
proof (intro conjI allI impI)
  let ?ql = "toLowerCase q"
  let ?ws = "queryWordsOf ?ql"
  show "\<forall>r \<in> set (localRank clk data q opts). 0 < score r"
    unfolding localRank_unfold using set_slice0 by fastforce
  have "length (localRank clk data q opts) =
      min (nat (limitOf opts)) (length (filter (\<lambda>r. 0 < score r) (filter (\<lambda>r. localKeeps opts (entry r))
                  (map (scoreEntry clk ?ql ?ws) (entries data)))))"
    unfolding localRank_unfold by (simp only: length_slice0 [OF assms] length_filter_js_sort)
  also have "length (filter (\<lambda>r. 0 < score r) (filter (\<lambda>r. localKeeps opts (entry r))
                  (map (scoreEntry clk ?ql ?ws) (entries data))))
     = length (filter (\<lambda>e. localKeeps opts e \<and> 0 < score (scoreEntry clk ?ql ?ws e)) (entries data))"
    by (simp add: filter_map o_def entry_scoreEntry conj_commute)
  finally show "length (localRank clk data q opts) =
           min (nat (limitOf opts))
             (length (filter (\<lambda>e. localKeeps opts e \<and> 0 < score (scoreEntry clk ?ql ?ws e)) (entries data)))" .
  show "\<forall>r \<in> set (textRank data q opts). jpositive (score r)"
    unfolding textRank_unfold using set_slice0 by fastforce
  have "length (textRank data q opts) =
      min (nat (limitOf opts)) (length (filter (\<lambda>r. passesFilters opts (entry r) \<and> jpositive (score r))
                  (map (textScore ?ql ?ws) (entries data))))"
    unfolding textRank_unfold
    by (simp only: length_slice0 [OF assms] filter_filter length_filter_js_sort)
  also have "length (filter (\<lambda>r. passesFilters opts (entry r) \<and> jpositive (score r))
                  (map (textScore ?ql ?ws) (entries data)))
     = length (filter (\<lambda>e. passesFilters opts e \<and> jpositive (score (textScore ?ql ?ws e))) (entries data))"
    by (simp add: filter_map o_def entry_textScore conj_commute)
  finally show "length (textRank data q opts) =
           min (nat (limitOf opts))
             (length (filter (\<lambda>e. passesFilters opts e \<and> jpositive (score (textScore ?ql ?ws e))) (entries data)))" .
next
  fix rs assume v: "vectorRank cache qe data opts = Inr rs"
  from v obtain scoredAll where e: "map entry scoredAll = entries data"
    and rs: "rs = slice0 (filter (\<lambda>r. passesFilters opts (entry r)) (js_sort byScore scoredAll)) (limitOf opts)"
    by (rule vectorRank_unfold)
  have "length rs = min (nat (limitOf opts)) (length (filter (\<lambda>r. passesFilters opts (entry r)) scoredAll))"
    unfolding rs by (simp only: length_slice0 [OF assms] length_filter_js_sort)
  then show "length rs = min (nat (limitOf opts)) (length (filter (passesFilters opts) (entries data)))"
    by (simp only: length_filter_entry e)
  assume big: "int (length (entries data)) \<le> limitOf opts"
  have "length (filter (\<lambda>r. passesFilters opts (entry r)) (js_sort byScore scoredAll)) \<le> length scoredAll"
    by (metis length_filter_le length_js_sort)
  also have "length scoredAll = length (entries data)"
    by (metis e length_map)
  finally have "rs = filter (\<lambda>r. passesFilters opts (entry r)) (js_sort byScore scoredAll)"
    unfolding rs using big by (intro slice0_all) linarith
  then have "mset (map entry rs) = image_mset entry (filter_mset (\<lambda>r. passesFilters opts (entry r)) (mset scoredAll))"
    by (simp add: mset_js_sort)
  also have "\<dots> = filter_mset (passesFilters opts) (image_mset entry (mset scoredAll))"
    by (simp add: filter_mset_image_mset o_def)
  also have "image_mset entry (mset scoredAll) = mset (entries data)"
    by (metis e mset_map)
  finally show "mset (map entry rs) = mset (filter (passesFilters opts) (entries data))"
    by simp
next
  fix e :: entry assume "map_of cache (ident e) = None"
  then show "vectorScore cache qe e = Inr \<lparr>entry = e, score = Num 0\<rparr>"
    by (simp add: vectorScore_def)
qed

theorem zero_score_policy_witness:
  "0 \<le> limitOf options0
   \<and> length (localRank clock0 sampleKB ''karpathy'' options0) = 2
   \<and> length (localRank clock0 sampleKB ''karpathy'' (options0\<lparr>categoryOpt := Str ''research''\<rparr>)) = 1
   \<and> length (textRank sampleKB ''karpathy'' options0) = 1
   \<and> vectorRank sampleCache (Some [1, 0]) sampleKB (options0\<lparr>categoryOpt := Absent\<rparr>)
        = Inr [\<lparr>entry = entryA, score = Num 1\<rparr>, \<lparr>entry = entryB, score = Num 0\<rparr>]
   \<and> map_of sampleCache (ident entryB) = None
   \<and> vectorScore sampleCache (Some [1, 0]) entryB = Inr \<lparr>entry = entryB, score = Num 0\<rparr>
   \<and> length [\<lparr>entry = entryA, score = Num (1::real)\<rparr>, \<lparr>entry = entryB, score = Num 0\<rparr>]
        = min (nat (limitOf (options0\<lparr>categoryOpt := Absent\<rparr>)))
            (length (filter (passesFilters (options0\<lparr>categoryOpt := Absent\<rparr>)) (entries sampleKB)))"
proof -
  have h: "0 \<le> limitOf options0" "0 \<le> limitOf (options0\<lparr>categoryOpt := Absent\<rparr>)"
    by (simp_all add: limitOf_def options0_def)
  have m: "map_of sampleCache (ident entryB) = None"
    by (simp add: sampleCache_def entryB_def)
  note t = zero_score_policy [OF h(2), of clock0 sampleKB "''karpathy''" sampleCache "Some [1, 0]"]
  have l1: "length (localRank clock0 sampleKB ''karpathy'' options0) = 2"
    by code_simp
  have l2: "length (localRank clock0 sampleKB ''karpathy'' (options0\<lparr>categoryOpt := Str ''research''\<rparr>)) = 1"
    by code_simp
  have l3: "length (textRank sampleKB ''karpathy'' options0) = 1"
    by code_simp
  note v = t [THEN conjunct2, THEN conjunct2, THEN conjunct2, THEN conjunct2, THEN conjunct2,
      THEN spec, THEN mp, OF m]
  note n = t [THEN conjunct2, THEN conjunct2, THEN conjunct2, THEN conjunct2, THEN conjunct1,
      THEN spec, THEN mp, OF vectorRank_sample, THEN conjunct1]
  show ?thesis
    by (intro conjI h(1) l1 l2 l3 vectorRank_sample m v n)
qed

section \<open>The category filter\<close>

text \<open>
  The claim C9 as stated fails: with the limit 1 the query \<^verbatim>\<open>karpathy\<close> returns entry 1
  without a category and entry 2 with the category \<^verbatim>\<open>misc\<close>.
\<close>

theorem category_narrows_counterexample:
  "map (ident \<circ> entry) (localRank clock0 sampleKB ''karpathy''
      (options0\<lparr>categoryOpt := Str ''misc'', limit := Some 1\<rparr>)) = [2]
   \<and> map (ident \<circ> entry) (localRank clock0 sampleKB ''karpathy'' (options0\<lparr>limit := Some 1\<rparr>)) = [1]"
  by code_simp

text \<open>
  C9, amended. When the search without a category returns fewer entries than the limit, the
  entry ids returned with a category, and otherwise the same options, are among those returned
  without it. This holds for \<^verbatim>\<open>localSearch\<close>, for \<^verbatim>\<open>textSearch\<close> and for the vector path of
  \<^verbatim>\<open>semanticSearch\<close>.
\<close>

theorem category_narrows_untruncated:
  "(int (length (localRank clk data q (opts\<lparr>categoryOpt := Absent\<rparr>))) < limitOf opts \<longrightarrow>
      ident ` entry ` set (localRank clk data q (opts\<lparr>categoryOpt := c\<rparr>))
        \<subseteq> ident ` entry ` set (localRank clk data q (opts\<lparr>categoryOpt := Absent\<rparr>)))
   \<and> (int (length (textRank data q (opts\<lparr>categoryOpt := Absent\<rparr>))) < limitOf opts \<longrightarrow>
      ident ` entry ` set (textRank data q (opts\<lparr>categoryOpt := c\<rparr>))
        \<subseteq> ident ` entry ` set (textRank data q (opts\<lparr>categoryOpt := Absent\<rparr>)))
   \<and> (\<forall>fs us. vectorRank cache qe data (opts\<lparr>categoryOpt := c\<rparr>) = Inr fs
          \<and> vectorRank cache qe data (opts\<lparr>categoryOpt := Absent\<rparr>) = Inr us
          \<and> int (length us) < limitOf opts \<longrightarrow>
        ident ` entry ` set fs \<subseteq> ident ` entry ` set us)"
proof (intro conjI allI impI)
  assume "int (length (localRank clk data q (opts\<lparr>categoryOpt := Absent\<rparr>))) < limitOf opts"
  then have "set (localRank clk data q (opts\<lparr>categoryOpt := c\<rparr>))
        \<subseteq> set (localRank clk data q (opts\<lparr>categoryOpt := Absent\<rparr>))"
    unfolding localRank_unfold limitOf_category
    by (rule narrowing_generic) (rule localKeeps_Absent)
  then show "ident ` entry ` set (localRank clk data q (opts\<lparr>categoryOpt := c\<rparr>))
        \<subseteq> ident ` entry ` set (localRank clk data q (opts\<lparr>categoryOpt := Absent\<rparr>))"
    by (intro image_mono)
next
  assume "int (length (textRank data q (opts\<lparr>categoryOpt := Absent\<rparr>))) < limitOf opts"
  then have "set (textRank data q (opts\<lparr>categoryOpt := c\<rparr>))
        \<subseteq> set (textRank data q (opts\<lparr>categoryOpt := Absent\<rparr>))"
    unfolding textRank_unfold limitOf_category
    by (rule narrowing_generic2) (rule passesFilters_Absent)
  then show "ident ` entry ` set (textRank data q (opts\<lparr>categoryOpt := c\<rparr>))
        \<subseteq> ident ` entry ` set (textRank data q (opts\<lparr>categoryOpt := Absent\<rparr>))"
    by (intro image_mono)
next
  fix fs us
  assume a: "vectorRank cache qe data (opts\<lparr>categoryOpt := c\<rparr>) = Inr fs
          \<and> vectorRank cache qe data (opts\<lparr>categoryOpt := Absent\<rparr>) = Inr us
          \<and> int (length us) < limitOf opts"
  from a obtain s1 where m1: "map_raising (vectorScore cache qe) (entries data) = Inr s1"
    and f: "fs = slice0 (filter (\<lambda>r. passesFilters (opts\<lparr>categoryOpt := c\<rparr>) (entry r)) (js_sort byScore s1))
                  (limitOf (opts\<lparr>categoryOpt := c\<rparr>))"
    by (metis vectorRank_unfold)
  from a obtain s2 where m2: "map_raising (vectorScore cache qe) (entries data) = Inr s2"
    and u: "us = slice0 (filter (\<lambda>r. passesFilters (opts\<lparr>categoryOpt := Absent\<rparr>) (entry r)) (js_sort byScore s2))
                  (limitOf (opts\<lparr>categoryOpt := Absent\<rparr>))"
    by (metis vectorRank_unfold)
  from m1 m2 have s: "s2 = s1" by simp
  have short: "int (length (slice0 (filter (\<lambda>r. True) (filter (\<lambda>r. passesFilters (opts\<lparr>categoryOpt := Absent\<rparr>) (entry r))
                  (js_sort byScore s1))) (limitOf opts))) < limitOf opts"
    using a u s by (simp add: limitOf_category)
  have "set (slice0 (filter (\<lambda>r. True) (filter (\<lambda>r. passesFilters (opts\<lparr>categoryOpt := c\<rparr>) (entry r)) (js_sort byScore s1))) (limitOf opts))
     \<subseteq> set (slice0 (filter (\<lambda>r. True) (filter (\<lambda>r. passesFilters (opts\<lparr>categoryOpt := Absent\<rparr>) (entry r)) (js_sort byScore s1))) (limitOf opts))"
    using short by (rule narrowing_generic2) (rule passesFilters_Absent)
  then have "set fs \<subseteq> set us"
    using f u s by (simp add: limitOf_category)
  then show "ident ` entry ` set fs \<subseteq> ident ` entry ` set us"
    by (intro image_mono)
qed

theorem category_narrows_untruncated_witness:
  "int (length (localRank clock0 sampleKB ''karpathy'' (options0\<lparr>categoryOpt := Absent\<rparr>))) < limitOf options0
   \<and> ident ` entry ` set (localRank clock0 sampleKB ''karpathy'' (options0\<lparr>categoryOpt := Str ''misc''\<rparr>))
        \<subseteq> ident ` entry ` set (localRank clock0 sampleKB ''karpathy'' (options0\<lparr>categoryOpt := Absent\<rparr>))
   \<and> int (length (textRank sampleKB ''karpathy'' (options0\<lparr>categoryOpt := Absent\<rparr>))) < limitOf options0
   \<and> ident ` entry ` set (textRank sampleKB ''karpathy'' (options0\<lparr>categoryOpt := Str ''misc''\<rparr>))
        \<subseteq> ident ` entry ` set (textRank sampleKB ''karpathy'' (options0\<lparr>categoryOpt := Absent\<rparr>))
   \<and> vectorRank sampleCache (Some [1, 0]) sampleKB (options0\<lparr>categoryOpt := Str ''misc''\<rparr>)
        = Inr [\<lparr>entry = entryB, score = Num 0\<rparr>]
   \<and> vectorRank sampleCache (Some [1, 0]) sampleKB (options0\<lparr>categoryOpt := Absent\<rparr>)
        = Inr [\<lparr>entry = entryA, score = Num 1\<rparr>, \<lparr>entry = entryB, score = Num 0\<rparr>]
   \<and> int (length [\<lparr>entry = entryA, score = Num (1::real)\<rparr>, \<lparr>entry = entryB, score = Num 0\<rparr>]) < limitOf options0
   \<and> ident ` entry ` set [\<lparr>entry = entryB, score = Num (0::real)\<rparr>]
        \<subseteq> ident ` entry ` set [\<lparr>entry = entryA, score = Num (1::real)\<rparr>, \<lparr>entry = entryB, score = Num 0\<rparr>]"
proof -
  have h1: "int (length (localRank clock0 sampleKB ''karpathy'' (options0\<lparr>categoryOpt := Absent\<rparr>))) < limitOf options0"
    by code_simp
  have h2: "int (length (textRank sampleKB ''karpathy'' (options0\<lparr>categoryOpt := Absent\<rparr>))) < limitOf options0"
    by code_simp
  have h3: "int (length [\<lparr>entry = entryA, score = Num (1::real)\<rparr>, \<lparr>entry = entryB, score = Num 0\<rparr>]) < limitOf options0"
    by (simp add: limitOf_def options0_def)
  note t = category_narrows_untruncated [of clock0 sampleKB "''karpathy''" options0 "Str ''misc''"
      sampleCache "Some [1, 0]"]
  note c1 = t [THEN conjunct1, THEN mp, OF h1]
  note c2 = t [THEN conjunct2, THEN conjunct1, THEN mp, OF h2]
  note c3 = t [THEN conjunct2, THEN conjunct2, THEN spec, THEN spec, THEN mp,
      OF conjI [OF vectorRank_sample_misc conjI [OF vectorRank_sample h3]]]
  show ?thesis
    by (intro conjI h1 h2 h3 c1 c2 c3 vectorRank_sample vectorRank_sample_misc)
qed

section \<open>The vector scorer and the dimensions of its arguments\<close>

lemma jadd_NaN_right: "jadd x NaN = NaN"
  by (cases x) simp_all

lemma jmul_NaN_right: "jmul x NaN = NaN"
  by (cases x) simp_all

lemma jdiv_NaN_right: "jdiv x NaN = NaN"
  by (cases x) simp_all

lemma normB_stays_NaN:
  "snd (snd acc) = NaN \<Longrightarrow> snd (snd (foldl (cosStep a b) acc is)) = NaN"
proof (induction "is" arbitrary: acc)
  case Nil
  then show ?case by simp
next
  case (Cons i "is")
  have "snd (snd (cosStep a b acc i)) = NaN"
    using Cons.prems by (cases acc) (simp add: cosStep_def)
  then show ?case using Cons.IH by simp
qed

lemma normB_becomes_NaN:
  "\<exists>i \<in> set is. length b \<le> i \<Longrightarrow> snd (snd (foldl (cosStep a b) acc is)) = NaN"
proof (induction "is" arbitrary: acc)
  case Nil
  then show ?case by simp
next
  case (Cons i "is")
  show ?case
  proof (cases "length b \<le> i")
    case True
    then have "snd (snd (cosStep a b acc i)) = NaN"
      by (cases acc) (simp add: cosStep_def elemAt_def jadd_NaN_right)
    then show ?thesis using normB_stays_NaN by simp
  next
    case False
    with Cons.prems have "\<exists>j \<in> set is. length b \<le> j" by auto
    then show ?thesis using Cons.IH by simp
  qed
qed

lemma cosStep_take:
  "i < n \<Longrightarrow> cosStep a (take n b) acc i = cosStep a b acc i"
  by (cases acc) (simp add: cosStep_def elemAt_def)

lemma foldl_cosStep_take:
  "\<forall>i \<in> set is. i < n \<Longrightarrow> foldl (cosStep a (take n b)) acc is = foldl (cosStep a b) acc is"
  by (induction "is" arbitrary: acc) (simp_all add: cosStep_take)

text \<open>
  The claim C8 as stated fails: \<^verbatim>\<open>cosineSimilarity\<close> returns a number for vectors of
  different lengths. A longer second vector gives the similarity with its first components, a
  shorter one gives NaN; neither is an error.
\<close>

theorem dimension_mismatch_counterexample:
  "cosineSimilarity (Some [1]) [1, 2] = Inr (Num 1)
   \<and> cosineSimilarity (Some [1, 2]) [1] = Inr NaN"
  by (simp add: cosineSimilarity_def cosStep_def elemAt_def upt_rec)

text \<open>
  C8, amended. \<^verbatim>\<open>cosineSimilarity\<close> compares the lengths of its arguments nowhere and raises no
  error for a query embedding that is an array: when the cached embedding is shorter than the
  query embedding the result is NaN, and when it is longer its extra components are ignored.
\<close>

theorem cosine_without_dimension_check:
  "(\<exists>v. cosineSimilarity (Some a) b = Inr v)
   \<and> (length b < length a \<longrightarrow> cosineSimilarity (Some a) b = Inr NaN)
   \<and> (length a \<le> length b \<longrightarrow>
        cosineSimilarity (Some a) b = cosineSimilarity (Some a) (take (length a) b))"
proof (intro conjI impI)
  show "\<exists>v. cosineSimilarity (Some a) b = Inr v"
    by (simp add: cosineSimilarity_def split: prod.split)
next
  assume short: "length b < length a"
  obtain d na nb where f: "foldl (cosStep a b) (Num 0, Num 0, Num 0) [0..<length a] = (d, na, nb)"
    by (cases "foldl (cosStep a b) (Num 0, Num 0, Num 0) [0..<length a]") auto
  from short have "\<exists>i \<in> set [0..<length a]. length b \<le> i" by auto
  then have "snd (snd (foldl (cosStep a b) (Num 0, Num 0, Num 0) [0..<length a])) = NaN"
    by (rule normB_becomes_NaN)
  with f have "nb = NaN" by simp
  with f show "cosineSimilarity (Some a) b = Inr NaN"
    by (simp add: cosineSimilarity_def jmul_NaN_right jdiv_NaN_right)
next
  assume "length a \<le> length b"
  have "foldl (cosStep a (take (length a) b)) (Num 0, Num 0, Num 0) [0..<length a]
        = foldl (cosStep a b) (Num 0, Num 0, Num 0) [0..<length a]"
    by (rule foldl_cosStep_take) simp
  then show "cosineSimilarity (Some a) b = cosineSimilarity (Some a) (take (length a) b)"
    by (simp add: cosineSimilarity_def)
qed

theorem cosine_without_dimension_check_witness:
  "length [1 :: real] < length [1, 2 :: real]
   \<and> cosineSimilarity (Some [1, 2]) [1] = Inr NaN
   \<and> length [1 :: real] \<le> length [1, 2 :: real]
   \<and> cosineSimilarity (Some [1]) [1, 2] = cosineSimilarity (Some [1]) (take (length [1 :: real]) [1, 2])"
proof -
  have h1: "length [1 :: real] < length [1, 2 :: real]" by simp
  have h2: "length [1 :: real] \<le> length [1, 2 :: real]" by simp
  note c1 = cosine_without_dimension_check [of "[1, 2]" "[1]", THEN conjunct2, THEN conjunct1, THEN mp, OF h1]
  note c2 = cosine_without_dimension_check [of "[1]" "[1, 2]", THEN conjunct2, THEN conjunct2, THEN mp, OF h2]
  show ?thesis by (intro conjI h1 h2 c1 c2)
qed

section \<open>Reloading the entry store\<close>

text \<open>
  The claim C5 as stated fails on the entry store of the server: \<^verbatim>\<open>loadKBData\<close> returns the
  snapshot it loaded first also after the file has changed.
\<close>

theorem server_store_counterexample:
  "fst (loadKBData server0 (Some sampleFile)) = Inr (Obj 0 sampleKB)
   \<and> mtime changedFile \<noteq> mtime sampleFile
   \<and> content changedFile = Doc otherKB
   \<and> otherKB \<noteq> sampleKB
   \<and> fst (loadKBData (snd (loadKBData server0 (Some sampleFile))) (Some changedFile))
       = Inr (Obj 0 sampleKB)"
  by (simp add: loadKBData_def server0_def sampleFile_def changedFile_def otherKB_def sampleKB_def)

lemma loadKB_Obj_state:
  assumes "loadKB st (Some f) = (Inr (Obj r d), st1)"
  shows "kbCache st1 = Some (Obj r d) \<and> kbLastModified st1 = Some (mtime f)"
  using assms
  by (auto simp: loadKB_def parseInto_def split: option.splits kbval.splits if_splits content.splits)

lemma loadKB_ok_state:
  assumes "loadKB st (Some f) = (Inr v, st1)"
  shows "kbLastModified st1 = Some (mtime f)"
  using assms
  by (auto simp: loadKB_def parseInto_def split: option.splits kbval.splits if_splits content.splits)

lemma loadKBData_Obj_state:
  assumes "loadKBData st fs = (Inr (Obj r d), st1)"
  shows "kbData st1 = Some (Obj r d)"
  using assms
  by (auto simp: loadKBData_def split: option.splits kbval.splits if_splits content.splits)

text \<open>
  C5, amended. For two successive calls of \<^verbatim>\<open>loadKB\<close>: when the first returned a snapshot
  and the modification time of the file is unchanged, the second returns the same object and
  the same state, nothing being parsed; when the modification time has changed and the file
  holds a document, the second parses it and returns a new object with the new content. The
  \<^verbatim>\<open>loadKBData\<close> of the server returns the snapshot it loaded first on every later call,
  whatever the file.
\<close>

theorem entry_store_reload:
  "(loadKB st (Some f1) = (Inr (Obj r d), st1) \<and> mtime f2 = mtime f1 \<longrightarrow>
      loadKB st1 (Some f2) = (Inr (Obj r d), st1))
   \<and> (loadKB st (Some f1) = (Inr v, st1) \<and> mtime f2 \<noteq> mtime f1 \<and> content f2 = Doc d2 \<longrightarrow>
      fst (loadKB st1 (Some f2)) = Inr (Obj (parsed st1) d2)
      \<and> parsed (snd (loadKB st1 (Some f2))) = parsed st1 + 1)
   \<and> (loadKBData sst fs1 = (Inr (Obj r d), sst1) \<longrightarrow>
      loadKBData sst1 fs2 = (Inr (Obj r d), sst1))"
proof (intro conjI impI)
  assume "loadKB st (Some f1) = (Inr (Obj r d), st1) \<and> mtime f2 = mtime f1"
  then show "loadKB st1 (Some f2) = (Inr (Obj r d), st1)"
    using loadKB_Obj_state [of st f1 r d st1] by (simp add: loadKB_def)
next
  assume a: "loadKB st (Some f1) = (Inr v, st1) \<and> mtime f2 \<noteq> mtime f1 \<and> content f2 = Doc d2"
  then have l: "kbLastModified st1 = Some (mtime f1)" using loadKB_ok_state by blast
  have "loadKB st1 (Some f2) = parseInto st1 f2"
    using a l by (simp add: loadKB_def split: option.splits kbval.splits)
  then show "fst (loadKB st1 (Some f2)) = Inr (Obj (parsed st1) d2)"
    and "parsed (snd (loadKB st1 (Some f2))) = parsed st1 + 1"
    using a by (simp_all add: parseInto_def)
next
  assume "loadKBData sst fs1 = (Inr (Obj r d), sst1)"
  then have "kbData sst1 = Some (Obj r d)" by (rule loadKBData_Obj_state)
  then show "loadKBData sst1 fs2 = (Inr (Obj r d), sst1)"
    by (simp add: loadKBData_def)
qed

lemma loadKB_sample:
  "loadKB client0 (Some sampleFile)
     = (Inr (Obj 0 sampleKB),
        \<lparr>kbCache = Some (Obj 0 sampleKB), kbLastModified = Some 1717200000000, parsed = 1\<rparr>)"
  by (simp add: loadKB_def parseInto_def client0_def sampleFile_def)

lemma loadKBData_sample:
  "loadKBData server0 (Some sampleFile)
     = (Inr (Obj 0 sampleKB),
        \<lparr>kbData = Some (Obj 0 sampleKB), embeddingsCache = None, srv_parsed = 1\<rparr>)"
  by (simp add: loadKBData_def server0_def sampleFile_def)

theorem entry_store_reload_witness:
  "loadKB client0 (Some sampleFile)
     = (Inr (Obj 0 sampleKB),
        \<lparr>kbCache = Some (Obj 0 sampleKB), kbLastModified = Some 1717200000000, parsed = 1\<rparr>)
   \<and> mtime (sampleFile\<lparr>content := Malformed\<rparr>) = mtime sampleFile
   \<and> loadKB \<lparr>kbCache = Some (Obj 0 sampleKB), kbLastModified = Some 1717200000000, parsed = 1\<rparr>
        (Some (sampleFile\<lparr>content := Malformed\<rparr>))
     = (Inr (Obj 0 sampleKB),
        \<lparr>kbCache = Some (Obj 0 sampleKB), kbLastModified = Some 1717200000000, parsed = 1\<rparr>)
   \<and> mtime changedFile \<noteq> mtime sampleFile
   \<and> content changedFile = Doc otherKB
   \<and> fst (loadKB \<lparr>kbCache = Some (Obj 0 sampleKB), kbLastModified = Some 1717200000000, parsed = 1\<rparr>
        (Some changedFile)) = Inr (Obj 1 otherKB)
   \<and> loadKBData server0 (Some sampleFile)
     = (Inr (Obj 0 sampleKB),
        \<lparr>kbData = Some (Obj 0 sampleKB), embeddingsCache = None, srv_parsed = 1\<rparr>)
   \<and> loadKBData \<lparr>kbData = Some (Obj 0 sampleKB), embeddingsCache = None, srv_parsed = 1\<rparr> None
     = (Inr (Obj 0 sampleKB),
        \<lparr>kbData = Some (Obj 0 sampleKB), embeddingsCache = None, srv_parsed = 1\<rparr>)"
proof -
  let ?st1 = "\<lparr>kbCache = Some (Obj 0 sampleKB), kbLastModified = Some 1717200000000, parsed = 1\<rparr>"
  let ?sst1 = "\<lparr>kbData = Some (Obj 0 sampleKB), embeddingsCache = None, srv_parsed = 1\<rparr>"
  have h1: "mtime (sampleFile\<lparr>content := Malformed\<rparr>) = mtime sampleFile" by simp
  have h2: "mtime changedFile \<noteq> mtime sampleFile" by (simp add: changedFile_def sampleFile_def)
  have h3: "content changedFile = Doc otherKB" by (simp add: changedFile_def)
  note c1 = entry_store_reload [where st = client0 and ?f1.0 = sampleFile and r = 0 and d = sampleKB
      and ?st1.0 = ?st1 and ?f2.0 = "sampleFile\<lparr>content := Malformed\<rparr>",
      THEN conjunct1, THEN mp, OF conjI [OF loadKB_sample h1]]
  note c2 = entry_store_reload [where st = client0 and ?f1.0 = sampleFile and v = "Obj 0 sampleKB"
      and ?st1.0 = ?st1 and ?f2.0 = changedFile and ?d2.0 = otherKB,
      THEN conjunct2, THEN conjunct1, THEN mp, OF conjI [OF loadKB_sample conjI [OF h2 h3]], THEN conjunct1]
  note c3 = entry_store_reload [where sst = server0 and ?fs1.0 = "Some sampleFile" and r = 0
      and d = sampleKB and ?sst1.0 = ?sst1 and ?fs2.0 = None,
      THEN conjunct2, THEN conjunct2, THEN mp, OF loadKBData_sample]
  have c2': "fst (loadKB ?st1 (Some changedFile)) = Inr (Obj 1 otherKB)"
    using c2 by simp
  show ?thesis
    by (intro conjI loadKB_sample h1 c1 h2 h3 c2' loadKBData_sample c3)
qed

section \<open>Lemmas on the client and on the route\<close>

lemma localRank_fallbackOptions:
  "localRank clk data q (fallbackOptions opts) = localRank clk data q opts"
  by (simp add: localRank_unfold localKeeps_def fallbackOptions_def categoryActive_def limitOf_def)

lemma localSearch_fallbackOptions:
  "localSearch clk fs st q (fallbackOptions opts) = localSearch clk fs st q opts"
  by (auto simp: localSearch_def localRank_fallbackOptions split: prod.splits sum.splits kbval.splits)

lemma apiSearch_fails:
  assumes "apiFails reply"
  shows "apiSearch clk fs st reply q opts =
     (case localSearch clk fs st q opts of
        (Inl e, st') \<Rightarrow> (Inl e, st')
      | (Inr rs, st') \<Rightarrow>
          (Inr \<lparr>summaryText = None, results = map localHit rs, total = length rs,
                fallback = True, local = False\<rparr>, st'))"
  using assms
  by (auto simp: apiSearch_def apiFails_def localSearch_fallbackOptions Let_def
      split: http.splits option.splits)

lemma apiSearch_fails_Inr:
  assumes "apiFails reply" and "fst (localSearch clk fs st q opts) = Inr rs"
  shows "fst (apiSearch clk fs st reply q opts) =
     Inr \<lparr>summaryText = None, results = map localHit rs, total = length rs,
          fallback = True, local = False\<rparr>"
  using assms(2) unfolding apiSearch_fails [OF assms(1)]
  by (cases "localSearch clk fs st q opts") auto


lemma apiSearch_passes:
  "response_ok status \<Longrightarrow> apiSearch clk fs st (Response status (Some body)) q opts = (Inr body, st)"
  by (simp add: apiSearch_def)





lemma post_search_missing:
  "queryMissing (rq_query req) \<Longrightarrow> post_search env st req = (Response 400 None, st)"
  by (simp add: post_search_def)

lemma post_search_error:
  assumes "\<not> queryMissing (rq_query req)"
    and "fst (semanticSearch env st (or_empty (rq_query req))
               ((rq_options req)\<lparr>limit := Some (limitOf (rq_options req))\<rparr>)) = Inl e"
  shows "fst (post_search env st req) = Response 500 None"
  using assms
  by (cases "semanticSearch env st (or_empty (rq_query req))
               ((rq_options req)\<lparr>limit := Some (limitOf (rq_options req))\<rparr>)")
     (simp add: post_search_def Let_def)

lemma post_search_body:
  assumes "fst (post_search env st req) = Response status (Some body)"
  shows "status = 200 \<and> \<not> fallback body \<and> \<not> local body
     \<and> (\<exists>rs. fst (semanticSearch env st (or_empty (rq_query req))
                 ((rq_options req)\<lparr>limit := Some (limitOf (rq_options req))\<rparr>)) = Inr rs
           \<and> results body = map serverHit rs \<and> total body = length rs)"
proof (cases "semanticSearch env st (or_empty (rq_query req))
               ((rq_options req)\<lparr>limit := Some (limitOf (rq_options req))\<rparr>)")
  case (Pair res st')
  show ?thesis
    using assms Pair
    by (cases res; cases "queryMissing (rq_query req)")
       (auto simp: post_search_def Let_def split: if_splits)
qed

lemma semanticSearch_no_embeddings:
  assumes "loadKBData st (kbFile env) = (Inr v, st1)"
    and "fst (getEmbeddingsCache env st1) = [] \<or> \<not> truthy (OPENAI_API_KEY env)"
  shows "semanticSearch env st q opts = textSearch env (snd (getEmbeddingsCache env st1)) q opts"
  using assms
  by (cases "getEmbeddingsCache env st1") (auto simp: semanticSearch_def)

lemma semanticSearch_provider_fails:
  assumes "loadKBData st (kbFile env) = (Inr v, st1)"
    and "fst (getEmbeddingsCache env st1) \<noteq> []" and "truthy (OPENAI_API_KEY env)"
    and "getQueryEmbedding env = Inl e"
  shows "fst (semanticSearch env st q opts) = Inl e"
  using assms
  by (cases "getEmbeddingsCache env st1") (auto simp: semanticSearch_def)



lemma localSearch_sample:
  "fst (localSearch clock0 (Some sampleFile) client0 ''karpathy'' options0)
     = Inr [\<lparr>entry = entryA, score = 11, matches = [''karpathy'']\<rparr>,
            \<lparr>entry = entryB, score = 2, matches = []\<rparr>]"
  by code_simp


lemma textSearch_sample:
  "textSearch serverNoKey \<lparr>kbData = Some (Obj 0 sampleKB), embeddingsCache = None, srv_parsed = 1\<rparr>
      ''karpathy'' (options0\<lparr>limit := Some 10, includeSummary := Some True\<rparr>)
    = (Inr [\<lparr>entry = entryA, score = Num 1\<rparr>],
       \<lparr>kbData = Some (Obj 0 sampleKB), embeddingsCache = None, srv_parsed = 1\<rparr>)"
  by code_simp

lemma semanticSearch_sample:
  "semanticSearch serverNoKey server0 ''karpathy'' (options0\<lparr>limit := Some 10, includeSummary := Some True\<rparr>)
    = (Inr [\<lparr>entry = entryA, score = Num 1\<rparr>],
       \<lparr>kbData = Some (Obj 0 sampleKB), embeddingsCache = None, srv_parsed = 1\<rparr>)"
proof -
  have k: "kbFile serverNoKey = Some sampleFile" "\<not> truthy (OPENAI_API_KEY serverNoKey)"
    by (simp_all add: serverNoKey_def)
  have g: "getEmbeddingsCache serverNoKey \<lparr>kbData = Some (Obj 0 sampleKB), embeddingsCache = None, srv_parsed = 1\<rparr>
      = ([], \<lparr>kbData = Some (Obj 0 sampleKB), embeddingsCache = None, srv_parsed = 1\<rparr>)"
    by (simp add: getEmbeddingsCache_def serverNoKey_def)
  have l: "loadKBData server0 (kbFile serverNoKey) = (Inr (Obj 0 sampleKB),
        \<lparr>kbData = Some (Obj 0 sampleKB), embeddingsCache = None, srv_parsed = 1\<rparr>)"
    unfolding k by (rule loadKBData_sample)
  show ?thesis
    unfolding semanticSearch_no_embeddings [OF l disjI2 [OF k(2)]] g snd_conv
    by (rule textSearch_sample)
qed

lemma post_search_sample:
  "fst (post_search serverNoKey server0 (requestOf ''karpathy'' options0))
    = Response 200 (Some \<lparr>summaryText = Some ''Found 1 relevant entries.'',
         results = [\<lparr>item = entryA, relevance = Num 100\<rparr>], total = 1,
         fallback = False, local = False\<rparr>)"
proof -
  have q: "\<not> queryMissing (Str ''karpathy'')"
    by (simp add: queryMissing_def is_space_def)
  have o: "rq_options (requestOf ''karpathy'' options0) = options0\<lparr>limit := Some 10, includeSummary := Some True\<rparr>"
    "rq_query (requestOf ''karpathy'' options0) = Str ''karpathy''"
    by (simp_all add: requestOf_def options0_def limitOf_def)
  have o2: "(options0\<lparr>limit := Some 10, includeSummary := Some True\<rparr>)\<lparr>limit := Some (limitOf (options0\<lparr>limit := Some 10, includeSummary := Some True\<rparr>))\<rparr>
       = options0\<lparr>limit := Some 10, includeSummary := Some True\<rparr>"
    by (simp add: limitOf_def)
  have n: "show_nat (Suc 0) = ''1''" by code_simp
  have s: "serverHit \<lparr>entry = entryA, score = Num 1\<rparr> = \<lparr>item = entryA, relevance = Num 100\<rparr>"
    by (simp add: serverHit_def)
  have nr: "narration serverNoKey = None" by (simp add: serverNoKey_def)
  show ?thesis
    unfolding post_search_def o Let_def o2 semanticSearch_sample
    by (simp add: q nr n s semanticSearch_sample)
qed

lemma post_search_ok:
  assumes "\<not> queryMissing (rq_query req)"
    and "fst (semanticSearch env st (or_empty (rq_query req))
               ((rq_options req)\<lparr>limit := Some (limitOf (rq_options req))\<rparr>)) = Inr rs"
  shows "\<exists>body. fst (post_search env st req) = Response 200 (Some body)
           \<and> results body = map serverHit rs"
  using assms
  by (cases "semanticSearch env st (or_empty (rq_query req))
               ((rq_options req)\<lparr>limit := Some (limitOf (rq_options req))\<rparr>)")
     (simp add: post_search_def Let_def)

lemma semanticSearch_bad_answer:
  "fst (semanticSearch serverBadAnswer server0
         (or_empty (rq_query (requestOf ''karpathy'' options0)))
         ((rq_options (requestOf ''karpathy'' options0))
            \<lparr>limit := Some (limitOf (rq_options (requestOf ''karpathy'' options0)))\<rparr>))
    = Inr [\<lparr>entry = entryA, score = Num 0\<rparr>, \<lparr>entry = entryB, score = Num 0\<rparr>]"
proof -
  have l: "loadKBData server0 (kbFile serverBadAnswer) = (Inr (Obj 0 sampleKB),
        \<lparr>kbData = Some (Obj 0 sampleKB), embeddingsCache = None, srv_parsed = 1\<rparr>)"
    by (simp add: serverBadAnswer_def loadKBData_sample)
  have g: "getEmbeddingsCache serverBadAnswer
             \<lparr>kbData = Some (Obj 0 sampleKB), embeddingsCache = None, srv_parsed = 1\<rparr>
      = ([(99, [1, 0])],
         \<lparr>kbData = Some (Obj 0 sampleKB), embeddingsCache = Some [(99, [1, 0])], srv_parsed = 1\<rparr>)"
    by (simp add: getEmbeddingsCache_def serverBadAnswer_def)
  have k: "truthy (OPENAI_API_KEY serverBadAnswer)" by (simp add: serverBadAnswer_def)
  have q: "getQueryEmbedding serverBadAnswer = Inr None"
    by (simp add: getQueryEmbedding_def serverBadAnswer_def)
  have m: "map_raising (vectorScore [(99, [1, 0])] None) (entries sampleKB)
      = Inr [\<lparr>entry = entryA, score = Num 0\<rparr>, \<lparr>entry = entryB, score = Num 0\<rparr>]"
    by (simp add: vectorScore_def sampleKB_def entryA_def entryB_def)
  have s: "js_sort byScore [\<lparr>entry = entryA, score = Num 0\<rparr>, \<lparr>entry = entryB, score = Num 0\<rparr>]
      = [\<lparr>entry = entryA, score = Num 0\<rparr>, \<lparr>entry = entryB, score = Num 0\<rparr>]"
    by (simp add: js_sort_def byScore_def jsub_def)
  have v: "vectorRank [(99, [1, 0])] None sampleKB
        ((rq_options (requestOf ''karpathy'' options0))
            \<lparr>limit := Some (limitOf (rq_options (requestOf ''karpathy'' options0)))\<rparr>)
      = Inr [\<lparr>entry = entryA, score = Num 0\<rparr>, \<lparr>entry = entryB, score = Num 0\<rparr>]"
    by (simp add: vectorRank_def m s applyFilters_def categoryActive_def requestOf_def
        options0_def slice0_def limitOf_def)
  show ?thesis
    by (simp only: semanticSearch_def l prod.case sum.case g) (simp add: k q v)
qed

section \<open>The relevance percentage\<close>




section \<open>The empty query at the client\<close>

text \<open>
  C6. The server rejects the empty query with status 400, and \<^verbatim>\<open>search\<close> of
  \<^verbatim>\<open>search-agent.js\<close> then does what the claim excludes: it takes the rejection for a
  failure of the API, runs the local search on the empty query and returns every entry.
\<close>

theorem empty_query_runs_local_search:
  "queryMissing (rq_query (requestOf [] options0))
   \<and> fst (post_search serverNoKey server0 (requestOf [] options0)) = Response 400 None
   \<and> fst (search clock0 (Some sampleFile) client0
            (fst (post_search serverNoKey server0 (requestOf [] options0))) True [] options0)
       = Inr \<lparr>summaryText = None,
              results = [\<lparr>item = entryB, relevance = Num 100\<rparr>, \<lparr>item = entryA, relevance = Num 100\<rparr>],
              total = 2, fallback = True, local = False\<rparr>"
proof -
  have m: "queryMissing (rq_query (requestOf [] options0))"
    by (simp add: queryMissing_def requestOf_def)
  have p: "fst (post_search serverNoKey server0 (requestOf [] options0)) = Response 400 None"
    by (simp add: post_search_missing [OF m])
  have s: "fst (search clock0 (Some sampleFile) client0 (Response 400 None) True [] options0)
       = Inr \<lparr>summaryText = None,
              results = [\<lparr>item = entryB, relevance = Num 100\<rparr>, \<lparr>item = entryA, relevance = Num 100\<rparr>],
              total = 2, fallback = True, local = False\<rparr>"
    by code_simp
  show ?thesis unfolding p using m s by simp
qed

theorem empty_query_runs_local_search_witness:
  "queryMissing (Str [])
   \<and> fst (search clock0 (Some sampleFile) client0 (Response 400 None) True [] options0)
       = Inr \<lparr>summaryText = None,
              results = [\<lparr>item = entryB, relevance = Num 100\<rparr>, \<lparr>item = entryA, relevance = Num 100\<rparr>],
              total = 2, fallback = True, local = False\<rparr>"
proof -
  note t = empty_query_runs_local_search
  have m: "queryMissing (Str [])"
    using t [THEN conjunct1] by (simp add: requestOf_def)
  have s: "fst (search clock0 (Some sampleFile) client0 (Response 400 None) True [] options0)
       = Inr \<lparr>summaryText = None,
              results = [\<lparr>item = entryB, relevance = Num 100\<rparr>, \<lparr>item = entryA, relevance = Num 100\<rparr>],
              total = 2, fallback = True, local = False\<rparr>"
    using t [THEN conjunct2, THEN conjunct2] unfolding t [THEN conjunct2, THEN conjunct1] .
  show ?thesis by (intro conjI m s)
qed

section \<open>Fallback from the remote to the local strategy\<close>

text \<open>
  The claim C1 as stated fails when the server has no key and no embedding cache: the server
  then ranks with its own \<^verbatim>\<open>textSearch\<close> and answers with status 200, so the envelope that
  \<^verbatim>\<open>apiSearch\<close> returns has no fallback flag, and its entries are not those of
  \<^verbatim>\<open>localSearch\<close>.
\<close>

theorem fallback_flag_counterexample:
  "\<not> truthy (OPENAI_API_KEY serverNoKey)
   \<and> cacheFile serverNoKey = NoCacheFile
   \<and> fst (apiSearch clock0 (Some sampleFile) client0
            (fst (post_search serverNoKey server0 (requestOf ''karpathy'' options0)))
            ''karpathy'' options0) = Inr serverEnvelope
   \<and> fallback serverEnvelope = False
   \<and> map (ident \<circ> item) (results serverEnvelope) = [1]
   \<and> map (ident \<circ> entry) (localRank clock0 sampleKB ''karpathy'' options0) = [1, 2]"
proof -
  have p: "fst (post_search serverNoKey server0 (requestOf ''karpathy'' options0))
        = Response 200 (Some serverEnvelope)"
    unfolding serverEnvelope_def by (simp add: post_search_sample)
  have a: "fst (apiSearch clock0 (Some sampleFile) client0 (Response 200 (Some serverEnvelope))
            ''karpathy'' options0) = Inr serverEnvelope"
    by (simp add: apiSearch_passes response_ok_def)
  have l: "map (ident \<circ> entry) (localRank clock0 sampleKB ''karpathy'' options0) = [1, 2]"
    by code_simp
  have e: "map (ident \<circ> item) (results serverEnvelope) = [1]"
    by (simp add: serverEnvelope_def entryA_def)
  show ?thesis
    unfolding p using a l e by (simp add: serverNoKey_def serverEnvelope_def)
qed

text \<open>
  C1, amended. When the call of the search API fails at the client (the request fails, the
  status is not a success, or the body is not JSON) and the knowledge base loads,
  \<^verbatim>\<open>apiSearch\<close> returns an envelope with the fallback flag set whose results are those of
  \<^verbatim>\<open>localSearch\<close> for the same query and options. On the server, with a key and a cache
  that is not empty, \<^verbatim>\<open>semanticSearch\<close> raises when the request for the query embedding
  raises; with a key, that request raises exactly when the provider is not reached or its body
  is not decoded, when the answer has an \<^verbatim>\<open>error\<close> property, or when it has no
  \<^verbatim>\<open>data[0]\<close>. Whenever \<^verbatim>\<open>semanticSearch\<close> raises on a query that is not blank, the route
  answers with status 500, which is a failure for the client. Whenever \<^verbatim>\<open>semanticSearch\<close>
  returns, the route answers with status 200 and an envelope without the fallback flag, which
  is no failure for the client; so an answer of the provider whose embedding is missing or of
  another length, and that does not make \<^verbatim>\<open>semanticSearch\<close> raise, is no trigger. When the
  embedding cache is empty or the key is missing, \<^verbatim>\<open>semanticSearch\<close> returns what
  \<^verbatim>\<open>textSearch\<close> returns; an envelope of the route never has the fallback flag, and
  \<^verbatim>\<open>apiSearch\<close> returns it as it is.
\<close>

theorem fallback_correctness:
  "(apiFails reply \<and> fst (localSearch clk fs st q opts) = Inr rs \<longrightarrow>
      fst (apiSearch clk fs st reply q opts) =
        Inr \<lparr>summaryText = None, results = map localHit rs, total = length rs,
             fallback = True, local = False\<rparr>)
   \<and> (loadKBData sst (kbFile senv) = (Inr v, sst1) \<and> fst (getEmbeddingsCache senv sst1) \<noteq> []
        \<and> truthy (OPENAI_API_KEY senv) \<and> getQueryEmbedding senv = Inl e \<longrightarrow>
      fst (semanticSearch senv sst q opts) = Inl e)
   \<and> (\<not> queryMissing (rq_query req)
        \<and> fst (semanticSearch senv sst (or_empty (rq_query req))
                 ((rq_options req)\<lparr>limit := Some (limitOf (rq_options req))\<rparr>)) = Inl e \<longrightarrow>
      fst (post_search senv sst req) = Response 500 None \<and> apiFails (Response 500 None))
   \<and> (loadKBData sst (kbFile senv) = (Inr v, sst1)
        \<and> (fst (getEmbeddingsCache senv sst1) = [] \<or> \<not> truthy (OPENAI_API_KEY senv)) \<longrightarrow>
      semanticSearch senv sst q opts = textSearch senv (snd (getEmbeddingsCache senv sst1)) q opts)
   \<and> (fst (post_search senv sst req) = Response status (Some body) \<longrightarrow>
      \<not> fallback body \<and> apiSearch clk fs st (Response status (Some body)) q opts = (Inr body, st))
   \<and> (truthy (OPENAI_API_KEY senv) \<longrightarrow>
      (\<exists>err. getQueryEmbedding senv = Inl err)
        = (queryReply senv = FetchFailed \<or> queryReply senv = ErrorField \<or> queryReply senv = NoData))
   \<and> (\<not> queryMissing (rq_query req)
        \<and> fst (semanticSearch senv sst (or_empty (rq_query req))
                 ((rq_options req)\<lparr>limit := Some (limitOf (rq_options req))\<rparr>)) = Inr srs \<longrightarrow>
      (\<exists>b. fst (post_search senv sst req) = Response 200 (Some b)
            \<and> results b = map serverHit srs \<and> \<not> fallback b
            \<and> \<not> apiFails (Response 200 (Some b))))"
proof (intro conjI impI)
  assume "apiFails reply \<and> fst (localSearch clk fs st q opts) = Inr rs"
  then show "fst (apiSearch clk fs st reply q opts) =
        Inr \<lparr>summaryText = None, results = map localHit rs, total = length rs,
             fallback = True, local = False\<rparr>"
    using apiSearch_fails_Inr by blast
next
  assume "loadKBData sst (kbFile senv) = (Inr v, sst1) \<and> fst (getEmbeddingsCache senv sst1) \<noteq> []
        \<and> truthy (OPENAI_API_KEY senv) \<and> getQueryEmbedding senv = Inl e"
  then show "fst (semanticSearch senv sst q opts) = Inl e"
    using semanticSearch_provider_fails by blast
next
  assume "\<not> queryMissing (rq_query req)
        \<and> fst (semanticSearch senv sst (or_empty (rq_query req))
                 ((rq_options req)\<lparr>limit := Some (limitOf (rq_options req))\<rparr>)) = Inl e"
  then show "fst (post_search senv sst req) = Response 500 None"
    using post_search_error by blast
next
  show "apiFails (Response 500 None)"
    by (simp add: apiFails_def)
next
  assume "loadKBData sst (kbFile senv) = (Inr v, sst1)
        \<and> (fst (getEmbeddingsCache senv sst1) = [] \<or> \<not> truthy (OPENAI_API_KEY senv))"
  then show "semanticSearch senv sst q opts = textSearch senv (snd (getEmbeddingsCache senv sst1)) q opts"
    using semanticSearch_no_embeddings by blast
next
  assume p: "fst (post_search senv sst req) = Response status (Some body)"
  then show "\<not> fallback body" using post_search_body by blast
  from p have "status = 200" using post_search_body by blast
  then show "apiSearch clk fs st (Response status (Some body)) q opts = (Inr body, st)"
    by (simp add: apiSearch_passes response_ok_def)
next
  assume "truthy (OPENAI_API_KEY senv)"
  then show "(\<exists>err. getQueryEmbedding senv = Inl err)
        = (queryReply senv = FetchFailed \<or> queryReply senv = ErrorField \<or> queryReply senv = NoData)"
    by (cases "queryReply senv") (simp_all add: getQueryEmbedding_def)
next
  assume "\<not> queryMissing (rq_query req)
        \<and> fst (semanticSearch senv sst (or_empty (rq_query req))
                 ((rq_options req)\<lparr>limit := Some (limitOf (rq_options req))\<rparr>)) = Inr srs"
  then obtain b where b: "fst (post_search senv sst req) = Response 200 (Some b)"
    and r: "results b = map serverHit srs"
    using post_search_ok by blast
  from b have "\<not> fallback b" using post_search_body by blast
  moreover have "\<not> apiFails (Response 200 (Some b))"
    by (simp add: apiFails_def response_ok_def)
  ultimately show "\<exists>b. fst (post_search senv sst req) = Response 200 (Some b)
            \<and> results b = map serverHit srs \<and> \<not> fallback b
            \<and> \<not> apiFails (Response 200 (Some b))"
    using b r by blast
qed

theorem fallback_correctness_witness:
  "apiFails NetworkFailure
   \<and> fst (localSearch clock0 (Some sampleFile) client0 ''karpathy'' options0)
       = Inr [\<lparr>entry = entryA, score = 11, matches = [''karpathy'']\<rparr>,
              \<lparr>entry = entryB, score = 2, matches = []\<rparr>]
   \<and> fst (apiSearch clock0 (Some sampleFile) client0 NetworkFailure ''karpathy'' options0)
       = Inr localEnvelope
   \<and> loadKBData server0 (kbFile serverWithKey)
       = (Inr (Obj 0 sampleKB), \<lparr>kbData = Some (Obj 0 sampleKB), embeddingsCache = None, srv_parsed = 1\<rparr>)
   \<and> fst (getEmbeddingsCache serverWithKey
            \<lparr>kbData = Some (Obj 0 sampleKB), embeddingsCache = None, srv_parsed = 1\<rparr>) \<noteq> []
   \<and> truthy (OPENAI_API_KEY serverWithKey)
   \<and> queryReply serverWithKey = FetchFailed
   \<and> (\<exists>err. getQueryEmbedding serverWithKey = Inl err)
   \<and> getQueryEmbedding serverWithKey = Inl ProviderError
   \<and> \<not> queryMissing (rq_query (requestOf ''karpathy'' options0))
   \<and> fst (post_search serverWithKey server0 (requestOf ''karpathy'' options0)) = Response 500 None
   \<and> loadKBData server0 (kbFile serverNoKey)
       = (Inr (Obj 0 sampleKB), \<lparr>kbData = Some (Obj 0 sampleKB), embeddingsCache = None, srv_parsed = 1\<rparr>)
   \<and> \<not> truthy (OPENAI_API_KEY serverNoKey)
   \<and> semanticSearch serverNoKey server0 ''karpathy'' options0
       = textSearch serverNoKey
           (snd (getEmbeddingsCache serverNoKey
                  \<lparr>kbData = Some (Obj 0 sampleKB), embeddingsCache = None, srv_parsed = 1\<rparr>))
           ''karpathy'' options0
   \<and> fst (post_search serverNoKey server0 (requestOf ''karpathy'' options0))
       = Response 200 (Some serverEnvelope)
   \<and> \<not> fallback serverEnvelope
   \<and> queryReply serverBadAnswer = Embedding None
   \<and> fst (semanticSearch serverBadAnswer server0
            (or_empty (rq_query (requestOf ''karpathy'' options0)))
            ((rq_options (requestOf ''karpathy'' options0))
               \<lparr>limit := Some (limitOf (rq_options (requestOf ''karpathy'' options0)))\<rparr>))
       = Inr [\<lparr>entry = entryA, score = Num 0\<rparr>, \<lparr>entry = entryB, score = Num 0\<rparr>]
   \<and> (\<exists>b. fst (post_search serverBadAnswer server0 (requestOf ''karpathy'' options0))
               = Response 200 (Some b)
            \<and> results b = map serverHit [\<lparr>entry = entryA, score = Num 0\<rparr>,
                                             \<lparr>entry = entryB, score = Num 0\<rparr>]
            \<and> \<not> fallback b
            \<and> \<not> apiFails (Response 200 (Some b)))"
proof -
  let ?rs = "[\<lparr>entry = entryA, score = 11, matches = [''karpathy'']\<rparr>,
              \<lparr>entry = entryB, score = 2, matches = []\<rparr>]"
  let ?sst1 = "\<lparr>kbData = Some (Obj 0 sampleKB), embeddingsCache = None, srv_parsed = 1\<rparr>"
  let ?req = "requestOf ''karpathy'' options0"
  have f: "apiFails NetworkFailure" by (simp add: apiFails_def)
  have lk: "loadKBData server0 (kbFile serverWithKey) = (Inr (Obj 0 sampleKB), ?sst1)"
    by (simp add: serverWithKey_def loadKBData_sample)
  have ln: "loadKBData server0 (kbFile serverNoKey) = (Inr (Obj 0 sampleKB), ?sst1)"
    by (simp add: serverNoKey_def loadKBData_sample)
  have g: "fst (getEmbeddingsCache serverWithKey ?sst1) \<noteq> []"
    by (simp add: getEmbeddingsCache_def serverWithKey_def sampleCache_def)
  have k: "truthy (OPENAI_API_KEY serverWithKey)" by (simp add: serverWithKey_def)
  have nk: "\<not> truthy (OPENAI_API_KEY serverNoKey)" by (simp add: serverNoKey_def)
  have qe: "getQueryEmbedding serverWithKey = Inl ProviderError"
    by (simp add: getQueryEmbedding_def serverWithKey_def)
  have qm: "\<not> queryMissing (rq_query ?req)"
    by (simp add: requestOf_def queryMissing_def is_space_def)
  have p: "fst (post_search serverNoKey server0 ?req) = Response 200 (Some serverEnvelope)"
    unfolding serverEnvelope_def by (simp add: post_search_sample)
  note t1 = fallback_correctness [where reply = NetworkFailure and clk = clock0
      and fs = "Some sampleFile" and st = client0 and q = "''karpathy''" and opts = options0
      and rs = ?rs]
  have c1: "fst (apiSearch clock0 (Some sampleFile) client0 NetworkFailure ''karpathy'' options0)
       = Inr localEnvelope"
    using t1 [THEN conjunct1, THEN mp, OF conjI [OF f localSearch_sample]]
    by (simp add: localEnvelope_def localHit_def)
  note t2 = fallback_correctness [where sst = server0 and senv = serverWithKey
      and v = "Obj 0 sampleKB" and ?sst1.0 = ?sst1 and e = ProviderError and req = ?req
      and q = "or_empty (rq_query ?req)"
      and opts = "(rq_options ?req)\<lparr>limit := Some (limitOf (rq_options ?req))\<rparr>"]
  note c2 = t2 [THEN conjunct2, THEN conjunct1, THEN mp, OF conjI [OF lk conjI [OF g conjI [OF k qe]]]]
  note c3 = t2 [THEN conjunct2, THEN conjunct2, THEN conjunct1, THEN mp, OF conjI [OF qm c2],
      THEN conjunct1]
  note t3 = fallback_correctness [where sst = server0 and senv = serverNoKey
      and v = "Obj 0 sampleKB" and ?sst1.0 = ?sst1 and req = ?req and status = 200
      and body = serverEnvelope and q = "''karpathy''" and opts = options0]
  note c4 = t3 [THEN conjunct2, THEN conjunct2, THEN conjunct2, THEN conjunct1, THEN mp,
      OF conjI [OF ln disjI2 [OF nk]]]
  note c5 = t3 [THEN conjunct2, THEN conjunct2, THEN conjunct2, THEN conjunct2, THEN conjunct1,
      THEN mp, OF p, THEN conjunct1]
  have qr: "queryReply serverWithKey = FetchFailed" by (simp add: serverWithKey_def)
  note c6 = t2 [THEN conjunct2, THEN conjunct2, THEN conjunct2, THEN conjunct2, THEN conjunct2,
      THEN conjunct1, THEN mp, OF k, THEN iffD2, OF disjI1 [OF qr]]
  have qb: "queryReply serverBadAnswer = Embedding None" by (simp add: serverBadAnswer_def)
  note t4 = fallback_correctness [where sst = server0 and senv = serverBadAnswer and req = ?req
      and srs = "[\<lparr>entry = entryA, score = Num 0\<rparr>, \<lparr>entry = entryB, score = Num 0\<rparr>]"]
  note c7 = t4 [THEN conjunct2, THEN conjunct2, THEN conjunct2, THEN conjunct2, THEN conjunct2,
      THEN conjunct2, THEN mp, OF conjI [OF qm semanticSearch_bad_answer]]
  show ?thesis
    by (intro conjI f localSearch_sample c1 lk g k qr c6 qe qm c3 ln nk c4 p c5 qb
        semanticSearch_bad_answer c7)
qed

end
